theory Spec2Isabelle
  imports Complex_Main
begin

section \<open>Python values and string operations\<close>

text \<open>
  The clarification and coordination core of the documentation agent
  (\<^verbatim>\<open>conversation_manager.py\<close>, \<^verbatim>\<open>delegation_coordinator.py\<close>,
  \<^verbatim>\<open>orchestrator.py\<close>, \<^verbatim>\<open>agents/base_agent.py\<close>) is embedded as HOL functions.

  A Python \<^verbatim>\<open>str\<close> is a \<^typ>\<open>string\<close>; one \<^typ>\<open>char\<close> stands for one code point
  below 256. Python integers are \<^typ>\<open>int\<close>, and the floating-point scores of the
  source are exact rationals (\<^typ>\<open>rat\<close>).
\<close>

text \<open>\<^verbatim>\<open>str.isspace\<close> on one character: the code points that \<^verbatim>\<open>strip()\<close> and
  \<^verbatim>\<open>split()\<close> treat as whitespace.\<close>

definition py_isspace :: "char \<Rightarrow> bool" where
  "py_isspace c =
     (let n = (of_char c :: nat)
      in (9 \<le> n \<and> n \<le> 13) \<or> (28 \<le> n \<and> n \<le> 32) \<or> n = 133 \<or> n = 160)"

text \<open>\<^verbatim>\<open>s.strip()\<close>\<close>

definition py_strip :: "string \<Rightarrow> string" where
  "py_strip s = rev (dropWhile py_isspace (rev (dropWhile py_isspace s)))"

text \<open>\<^verbatim>\<open>s.lower()\<close>: the letters A-Z and the upper-case letters of Latin-1.\<close>

definition py_lower_char :: "char \<Rightarrow> char" where
  "py_lower_char c =
     (let n = (of_char c :: nat)
      in if (65 \<le> n \<and> n \<le> 90) \<or> (192 \<le> n \<and> n \<le> 222 \<and> n \<noteq> 215)
         then char_of (n + 32) else c)"

definition py_lower :: "string \<Rightarrow> string" where
  "py_lower s = map py_lower_char s"

text \<open>\<^verbatim>\<open>sub in s\<close> for two strings: \<^verbatim>\<open>sub\<close> occurs in \<^verbatim>\<open>s\<close> as a contiguous run.\<close>

fun py_in :: "string \<Rightarrow> string \<Rightarrow> bool" where
  "py_in sub [] = (sub = [])"
| "py_in sub (c # cs) = (take (length sub) (c # cs) = sub \<or> py_in sub cs)"

text \<open>\<^verbatim>\<open>any(p in s for p in patterns)\<close>\<close>

definition any_in :: "string list \<Rightarrow> string \<Rightarrow> bool" where
  "any_in patterns s = list_ex (\<lambda>p. py_in p s) patterns"

text \<open>\<^verbatim>\<open>s.split()\<close>: the maximal runs of non-whitespace characters.\<close>

fun split_ws :: "string \<Rightarrow> string \<Rightarrow> string list" where
  "split_ws w [] = (if w = [] then [] else [w])"
| "split_ws w (c # cs) =
     (if py_isspace c then (if w = [] then split_ws [] cs else w # split_ws [] cs)
      else split_ws (w @ [c]) cs)"

definition py_split :: "string \<Rightarrow> string list" where
  "py_split s = split_ws [] s"

text \<open>\<^verbatim>\<open>s.split(sep)\<close> for a one-character separator.\<close>

fun split_on :: "char \<Rightarrow> string \<Rightarrow> string \<Rightarrow> string list" where
  "split_on sep w [] = [w]"
| "split_on sep w (c # cs) =
     (if c = sep then w # split_on sep [] cs else split_on sep (w @ [c]) cs)"

definition py_split_sep :: "char \<Rightarrow> string \<Rightarrow> string list" where
  "py_split_sep sep s = split_on sep [] s"

text \<open>\<^verbatim>\<open>sep.join(xs)\<close> for a list of strings.\<close>

fun join :: "string \<Rightarrow> string list \<Rightarrow> string" where
  "join sep [] = []"
| "join sep [x] = x"
| "join sep (x # y # ys) = x @ sep @ join sep (y # ys)"

subsection \<open>Dynamically typed values\<close>

text \<open>
  The values that \<^verbatim>\<open>json.loads\<close> produces and that the conversation stores under
  \<^verbatim>\<open>Dict[str, Any]\<close>. A dictionary is an association list in insertion order. A float is
  carried by its \<^verbatim>\<open>repr\<close> text.
\<close>

datatype pyval =
    PyNone
  | PyBool bool
  | PyInt int
  | PyFloat string
  | PyStr string
  | PyList "pyval list"
  | PyDict "(string \<times> pyval) list"

datatype py_exception = TypeError | AttributeError | KeyError | OSError

text \<open>\<^verbatim>\<open>bool(v)\<close>\<close>

fun truthy :: "pyval \<Rightarrow> bool" where
  "truthy PyNone = False"
| "truthy (PyBool b) = b"
| "truthy (PyInt i) = (i \<noteq> 0)"
| "truthy (PyFloat r) = (r \<noteq> ''0.0'' \<and> r \<noteq> ''-0.0'')"
| "truthy (PyStr s) = (s \<noteq> [])"
| "truthy (PyList xs) = (xs \<noteq> [])"
| "truthy (PyDict kvs) = (kvs \<noteq> [])"

text \<open>Decimal digits of an integer, as \<^verbatim>\<open>str(i)\<close> prints them.\<close>

fun digits :: "nat \<Rightarrow> string" where
  "digits n = (if n < 10 then [char_of (48 + n)] else digits (n div 10) @ [char_of (48 + n mod 10)])"

declare digits.simps [simp del]

definition str_int :: "int \<Rightarrow> string" where
  "str_int i = (if i < 0 then CHR ''-'' # digits (nat (- i)) else digits (nat i))"

text \<open>\<^verbatim>\<open>repr\<close> of a string: the quote is the double quote only when the text holds a
  single quote and no double quote; control and non-printable characters are escaped.\<close>

definition hex_digit :: "nat \<Rightarrow> char" where
  "hex_digit n = (if n < 10 then char_of (48 + n) else char_of (87 + n))"

definition repr_char :: "char \<Rightarrow> char \<Rightarrow> string" where
  "repr_char q c =
     (let n = (of_char c :: nat)
      in if c = q \<or> n = 92 then [CHR 0x5C, c]
         else if n = 9 then [CHR 0x5C, CHR ''t'']
         else if n = 10 then [CHR 0x5C, CHR ''n'']
         else if n = 13 then [CHR 0x5C, CHR ''r'']
         else if n < 32 \<or> (127 \<le> n \<and> n \<le> 160) \<or> n = 173
           then [CHR 0x5C, CHR ''x'', hex_digit (n div 16), hex_digit (n mod 16)]
         else [c])"

definition repr_str :: "string \<Rightarrow> string" where
  "repr_str s =
     (let q = (if CHR 0x27 \<in> set s \<and> CHR 0x22 \<notin> set s then CHR 0x22 else CHR 0x27)
      in [q] @ concat (map (repr_char q) s) @ [q])"

fun py_repr :: "pyval \<Rightarrow> string" where
  "py_repr PyNone = ''None''"
| "py_repr (PyBool b) = (if b then ''True'' else ''False'')"
| "py_repr (PyInt i) = str_int i"
| "py_repr (PyFloat r) = r"
| "py_repr (PyStr s) = repr_str s"
| "py_repr (PyList xs) = ''['' @ join '', '' (map py_repr xs) @ '']''"
| "py_repr (PyDict kvs) =
     ''{'' @ join '', '' (map (\<lambda>(k, v). repr_str k @ '': '' @ py_repr v) kvs) @ ''}''"

text \<open>\<^verbatim>\<open>str(v)\<close>, which is also how an f-string renders \<^verbatim>\<open>{v}\<close>.\<close>

fun py_str :: "pyval \<Rightarrow> string" where
  "py_str (PyStr s) = s"
| "py_str v = py_repr v"

text \<open>\<^verbatim>\<open>d.get(key)\<close> and \<^verbatim>\<open>d[key] = value\<close> on an insertion-ordered dictionary.\<close>

fun dict_get :: "(string \<times> 'v) list \<Rightarrow> string \<Rightarrow> 'v option" where
  "dict_get [] k = None"
| "dict_get ((k', v) # kvs) k = (if k' = k then Some v else dict_get kvs k)"

fun dict_set :: "(string \<times> 'v) list \<Rightarrow> string \<Rightarrow> 'v \<Rightarrow> (string \<times> 'v) list" where
  "dict_set [] k v = [(k, v)]"
| "dict_set ((k', v') # kvs) k v =
     (if k' = k then (k, v) # kvs else (k', v') # dict_set kvs k v)"

text \<open>\<^verbatim>\<open>sep.join(v)\<close> on a dynamically typed value: a string joins its characters, a
  list must hold strings only, a dictionary joins its keys, anything else is not
  iterable.\<close>

fun the_strs :: "pyval list \<Rightarrow> string list option" where
  "the_strs [] = Some []"
| "the_strs (PyStr s # vs) = (case the_strs vs of None \<Rightarrow> None | Some ss \<Rightarrow> Some (s # ss))"
| "the_strs (_ # vs) = None"

fun py_join :: "string \<Rightarrow> pyval \<Rightarrow> py_exception + string" where
  "py_join sep (PyStr s) = Inr (join sep (map (\<lambda>c. [c]) s))"
| "py_join sep (PyList vs) =
     (case the_strs vs of None \<Rightarrow> Inl TypeError | Some ss \<Rightarrow> Inr (join sep ss))"
| "py_join sep (PyDict kvs) = Inr (join sep (map fst kvs))"
| "py_join sep _ = Inl TypeError"

text \<open>\<^verbatim>\<open>v[:n]\<close>: lists and strings can be sliced, nothing else.\<close>

fun py_slice :: "nat \<Rightarrow> pyval \<Rightarrow> py_exception + pyval" where
  "py_slice n (PyList vs) = Inr (PyList (take n vs))"
| "py_slice n (PyStr s) = Inr (PyStr (take n s))"
| "py_slice n _ = Inl TypeError"

text \<open>\<^verbatim>\<open>len(v)\<close> where it is defined.\<close>

fun py_len :: "pyval \<Rightarrow> nat option" where
  "py_len (PyList vs) = Some (length vs)"
| "py_len (PyStr s) = Some (length s)"
| "py_len (PyDict kvs) = Some (length kvs)"
| "py_len _ = None"

lemma py_slice_len: "py_slice n v = Inr q \<Longrightarrow> \<exists>k. py_len q = Some k \<and> k \<le> n"
  by (cases v) auto


section \<open>The conversation state\<close>

text \<open>One entry of \<^verbatim>\<open>conversation_history\<close>.\<close>

record exchange =
  timestamp :: string
  agent :: string
  question :: string
  answer :: string

text \<open>The dataclass \<^verbatim>\<open>ConversationContext\<close>. \<^verbatim>\<open>last_questions\<close> is declared
  \<^verbatim>\<open>List[str]\<close>, but it is assigned values read from parsed JSON, so it is a
  dynamically typed value here.\<close>

record ConversationContext =
  user_request :: string
  conversation_history :: "exchange list"
  gathered_info :: "(string \<times> pyval) list"
  clarification_round :: int
  max_clarification_rounds :: int
  confidence_score :: rat
  code_directory :: "string option"
  input_files :: "string list option"
  last_questions :: pyval
  empty_response_count :: int
  max_empty_responses :: int
  critique_iterations :: int
  max_critique_iterations :: int
  enable_self_critique :: bool

text \<open>\<^verbatim>\<open>__post_init__\<close>\<close>

definition post_init :: "ConversationContext \<Rightarrow> ConversationContext" where
  "post_init c =
     (let c = (if \<not> (0 \<le> confidence_score c \<and> confidence_score c \<le> 1)
               then c\<lparr>confidence_score := max 0 (min 1 (confidence_score c))\<rparr> else c);
          c = (if clarification_round c < 0 then c\<lparr>clarification_round := 0\<rparr> else c);
          c = (if max_clarification_rounds c < 1 then c\<lparr>max_clarification_rounds := 3\<rparr> else c);
          c = (if empty_response_count c < 0 then c\<lparr>empty_response_count := 0\<rparr> else c);
          c = (if max_empty_responses c < 1 then c\<lparr>max_empty_responses := 2\<rparr> else c)
      in c)"

text \<open>\<^verbatim>\<open>ConversationContext(user_request=..., code_directory=..., input_files=...)\<close>:
  every other field takes its default.\<close>

definition new_context :: "string \<Rightarrow> string option \<Rightarrow> string list option \<Rightarrow> ConversationContext" where
  "new_context request directory files =
     post_init \<lparr> user_request = request, conversation_history = [], gathered_info = [],
       clarification_round = 0, max_clarification_rounds = 3, confidence_score = 0,
       code_directory = directory, input_files = files, last_questions = PyList [],
       empty_response_count = 0, max_empty_responses = 2, critique_iterations = 0,
       max_critique_iterations = 2, enable_self_critique = True \<rparr>"

text \<open>\<^verbatim>\<open>add_exchange\<close>; the timestamp is the clock's reading, passed in.\<close>

definition add_exchange :: "ConversationContext \<Rightarrow> string \<Rightarrow> string \<Rightarrow> string \<Rightarrow> string \<Rightarrow> ConversationContext" where
  "add_exchange c now who q a =
     c\<lparr>conversation_history := conversation_history c @
        [\<lparr>timestamp = now, agent = who, question = q, answer = a\<rparr>]\<rparr>"

text \<open>\<^verbatim>\<open>update_info\<close>: a plain dictionary store, with no check of the value.\<close>

definition update_info :: "ConversationContext \<Rightarrow> string \<Rightarrow> pyval \<Rightarrow> ConversationContext" where
  "update_info c key val = c\<lparr>gathered_info := dict_set (gathered_info c) key val\<rparr>"

text \<open>\<^verbatim>\<open>get_context_summary\<close>\<close>

definition summary_exchange :: "nat \<times> exchange \<Rightarrow> string" where
  "summary_exchange = (\<lambda>(i, ex).
     str_int (int i) @ ''. Q: '' @ take 100 (question ex) @ ''...\<newline>'' @
     ''   A: '' @ take 100 (answer ex) @ ''...\<newline>'')"

definition last_n :: "nat \<Rightarrow> 'a list \<Rightarrow> 'a list" where
  "last_n n xs = drop (length xs - n) xs"

definition get_context_summary :: "ConversationContext \<Rightarrow> string" where
  "get_context_summary c =
     ''Original Request: '' @ user_request c @ ''\<newline>\<newline>'' @
     (if gathered_info c \<noteq> []
      then ''Gathered Information:\<newline>'' @
           concat (map (\<lambda>(key, val). ''- '' @ key @ '': '' @ py_str val @ ''\<newline>'') (gathered_info c)) @
           ''\<newline>''
      else []) @
     (if conversation_history c \<noteq> []
      then ''Previous Exchanges:\<newline>'' @
           concat (map summary_exchange
             (let recent = last_n 3 (conversation_history c) in zip [1 ..< Suc (length recent)] recent))
      else [])"

section \<open>The confidence scorer\<close>

text \<open>One pass of the loop of \<^verbatim>\<open>_calculate_confidence\<close> over a gathered value: the pair is
  \<^verbatim>\<open>(score, total_possible)\<close>.\<close>

definition filler_values :: "string list" where
  "filler_values = [''none'', ''n/a'', ''unknown'']"

definition score_fact :: "rat \<times> rat \<Rightarrow> string \<times> pyval \<Rightarrow> rat \<times> rat" where
  "score_fact = (\<lambda>(score, total_possible) (key, val).
     if truthy val \<and> py_strip (py_str val) \<noteq> [] \<and> py_lower (py_str val) \<notin> set filler_values
     then (let content_length = length (py_strip (py_str val));
               score = (if content_length \<ge> 5
                        then score + 1 + (if content_length > 50 then 3 / 10 else 0)
                        else score)
           in (score, total_possible + 1))
     else (score, total_possible))"

definition score_facts :: "(string \<times> pyval) list \<Rightarrow> rat \<times> rat" where
  "score_facts info = foldl score_fact (0, 0) info"

definition quality_exchanges :: "exchange list \<Rightarrow> nat" where
  "quality_exchanges history = length (filter (\<lambda>ex. length (py_strip (answer ex)) > 20) history)"

text \<open>\<^verbatim>\<open>_calculate_confidence\<close>; the argument is \<^verbatim>\<open>self.context\<close>.\<close>

definition calculate_confidence :: "ConversationContext option \<Rightarrow> rat" where
  "calculate_confidence context =
     (case context of
        None \<Rightarrow> 0
      | Some c \<Rightarrow>
         (let (score, total_possible) = score_facts (gathered_info c);
              info_score = (if total_possible > 0 then score / max total_possible 1 else 0);
              conversation_bonus =
                (if conversation_history c \<noteq> []
                 then min (of_nat (quality_exchanges (conversation_history c)) * (1 / 10)) (1 / 4)
                 else 0);
              round_penalty =
                (if clarification_round c > 2 \<and> gathered_info c = []
                 then (2 / 10) * of_int (clarification_round c - 2) else 0);
              spam_penalty = of_int (empty_response_count c) * (15 / 100)
          in max 0 (min 1 (info_score * (7 / 10) + conversation_bonus - round_penalty - spam_penalty))))"


section \<open>Agents and the outside world\<close>

text \<open>
  Every call that leaves the modelled code is recorded in a log of calls, which is
  threaded through the functions below. The replies of the hosted model, the clock, the
  file system and the functions of Python's \<^verbatim>\<open>json\<close> and \<^verbatim>\<open>re\<close> modules are parameters
  (record \<open>env\<close>); a reply may depend on the whole log, so one \<open>env\<close> describes any
  single run.
\<close>

datatype call =
    ExecuteAsync string string
  | GenerateDocumentation string
  | AnalyzeAndClarify

datatype run_outcome = Returned string | Raised string

text \<open>A \<^verbatim>\<open>BaseAgent\<close>: its name, and whether \<^verbatim>\<open>self.agent\<close> is set.\<close>

record base_agent =
  agent_name :: string
  registered :: bool

text \<open>The dictionary \<^verbatim>\<open>_assess_document_quality\<close> returns.\<close>

record assessment =
  confidence :: string
  flags :: "string list"
  issues :: "string list"
  word_count :: nat
  has_sections :: bool
  completeness_score :: rat

text \<open>The dictionary a generation returns; \<open>result_flags\<close> is the key \<^verbatim>\<open>flags\<close>
  (the empty list when absent).\<close>

record generation =
  status :: "string option"
  message :: "string option"
  document :: "string option"
  output_path :: "string option"
  document_type :: "string option"
  workflow :: "string list"
  agents_involved :: "string list"
  collaboration_summary :: "string option"
  coordination_mode :: "string option"
  phase_log :: "string list"
  result_flags :: "string list"
  quality :: "assessment option"
  dispatch_info :: "pyval option"

record env =
  sdk_available :: bool
  agent_run :: "string \<Rightarrow> call list \<Rightarrow> string \<Rightarrow> run_outcome"
  dispatcher :: base_agent
  analyst :: base_agent
  researcher :: base_agent
  writer :: base_agent
  security_reviewer :: base_agent
  editor :: base_agent
  json_loads :: "string \<Rightarrow> pyval option"
  re_json_block :: "string \<Rightarrow> string option"
  re_priority_questions :: "string \<Rightarrow> string option"
  re_question_items :: "string \<Rightarrow> string list"
  re_analysis :: "string \<Rightarrow> string option"
  re_brace_object :: "string \<Rightarrow> string option"
  now_iso :: "call list \<Rightarrow> string"
  now_stamp :: "call list \<Rightarrow> string"
  write_file :: "call list \<Rightarrow> string \<Rightarrow> string \<Rightarrow> bool"
  generate_documentation_async ::
    "call list \<Rightarrow> string \<Rightarrow> string option \<Rightarrow> string list option \<Rightarrow> generation"

text \<open>\<^verbatim>\<open>BaseAgent._format_context\<close> and \<^verbatim>\<open>BaseAgent.execute_async\<close>. An empty context
  stands for both \<^verbatim>\<open>None\<close> and \<^verbatim>\<open>{}\<close>.\<close>

definition format_context :: "(string \<times> pyval) list \<Rightarrow> string" where
  "format_context context =
     join ''\<newline>'' (map (\<lambda>(key, val). key @ '': '' @ py_str val) context)"

definition execute_async ::
  "env \<Rightarrow> base_agent \<Rightarrow> string \<Rightarrow> (string \<times> pyval) list \<Rightarrow> call list \<Rightarrow> string \<times> call list" where
  "execute_async e a user_message context tr =
     (let tr = tr @ [ExecuteAsync (agent_name a) user_message]
      in if \<not> sdk_available e
         then (''Error: Microsoft Agent Framework not available for '' @ agent_name a, tr)
         else if \<not> registered a
         then (''Error: '' @ agent_name a @ '' not registered. Call register_agent() first.'', tr)
         else
           (let full_message =
                  (if context \<noteq> []
                   then ''Context from previous steps:\<newline>'' @ format_context context @
                        ''\<newline>\<newline>'' @ user_message
                   else user_message)
            in case agent_run e (agent_name a) tr full_message of
                 Returned result \<Rightarrow> (result, tr)
               | Raised msg \<Rightarrow> (''Error in '' @ agent_name a @ '': '' @ msg, tr)))"

section \<open>Extracting JSON from a reply\<close>

text \<open>The scan of strategy 3: from the first opening brace to the brace that closes it.\<close>

fun matching_brace :: "int \<Rightarrow> string \<Rightarrow> string \<Rightarrow> string option" where
  "matching_brace depth seen [] = None"
| "matching_brace depth seen (c # cs) =
     (if c = CHR ''{'' then matching_brace (depth + 1) (seen @ [c]) cs
      else if c = CHR ''}''
      then (if depth - 1 = 0 then Some (seen @ [c]) else matching_brace (depth - 1) (seen @ [c]) cs)
      else matching_brace depth (seen @ [c]) cs)"

definition first_json_object :: "string \<Rightarrow> string option" where
  "first_json_object response = matching_brace 0 [] (dropWhile (\<lambda>c. c \<noteq> CHR ''{'') response)"

text \<open>\<^verbatim>\<open>ConversationalOrchestrator._extract_json_from_response\<close>: four strategies, the
  first that succeeds wins, the empty dictionary otherwise.\<close>

definition extract_json_from_response :: "env \<Rightarrow> string \<Rightarrow> pyval" where
  "extract_json_from_response e response =
     (if response = [] then PyDict []
      else case json_loads e response of
        Some v \<Rightarrow> v
      | None \<Rightarrow>
         (case (case re_json_block e response of None \<Rightarrow> None | Some block \<Rightarrow> json_loads e block) of
            Some v \<Rightarrow> v
          | None \<Rightarrow>
             (case (case first_json_object response of None \<Rightarrow> None
                    | Some json_str \<Rightarrow> json_loads e json_str) of
                Some v \<Rightarrow> v
              | None \<Rightarrow>
                 (let result = [];
                      result =
                        (case re_priority_questions e response of
                           None \<Rightarrow> result
                         | Some questions_str \<Rightarrow>
                            (let questions = re_question_items e questions_str
                             in if questions \<noteq> []
                                then dict_set result ''priority_questions'' (PyList (map PyStr questions))
                                else result));
                      result =
                        (case re_analysis e response of
                           None \<Rightarrow> result
                         | Some a \<Rightarrow> dict_set result ''analysis'' (PyStr a))
                  in PyDict result))))"

section \<open>The clarification engine\<close>

text \<open>The state of a \<^verbatim>\<open>ConversationalOrchestrator\<close>: \<^verbatim>\<open>self.context\<close> (field \<open>conv_context\<close>), and the log of
  calls made so far.\<close>

record conversation =
  conv_context :: "ConversationContext option"
  calls :: "call list"

text \<open>What the methods return: the \<^verbatim>\<open>error\<close> dictionary, the
  \<^verbatim>\<open>needs_clarification\<close> dictionary (round, questions, and the analysis and
  \<^verbatim>\<open>can_use_defaults\<close> keys when present), or the dictionary of a generation.\<close>

datatype reply =
    ErrorStatus string
  | NeedsClarification int pyval "pyval option" "bool option"
  | Generated generation

text \<open>\<^verbatim>\<open>_ask_basic_questions\<close>: first the list of questions for the facts that are
  still missing, then the method itself, which stores and returns the first three.\<close>

definition adaptive_questions :: "ConversationContext \<Rightarrow> string list" where
  "adaptive_questions c =
     (let gathered_keys = set (map fst (gathered_info c));
          questions = [];
          questions =
            (if ''application_type'' \<notin> gathered_keys
             then questions @
               [''What type of application is this? (e.g., web app, mobile app, API, microservices)'']
             else questions);
          questions =
            (if ''document_types'' \<notin> gathered_keys \<and> ''document_type'' \<notin> gathered_keys
             then questions @
               [''What documentation do you need? (e.g., BRD, FRD, API docs, deployment guide)'']
             else questions);
          questions =
            (if ''key_features'' \<notin> gathered_keys \<and> ''features'' \<notin> gathered_keys
             then questions @ [''What are the main features or capabilities of this application?'']
             else questions);
          questions =
            (if ''stakeholders'' \<notin> gathered_keys \<and> length questions < 3
             then questions @ [''Who are the primary users or stakeholders?'']
             else questions);
          questions =
            (if ''technical_stack'' \<notin> gathered_keys \<and> ''tech_stack'' \<notin> gathered_keys
                \<and> length questions < 3
             then (if (case code_directory c of None \<Rightarrow> False | Some d \<Rightarrow> d \<noteq> [])
                      \<or> (case input_files c of None \<Rightarrow> False | Some fs \<Rightarrow> fs \<noteq> [])
                   then questions @
                     [''Any specific technical requirements or constraints we should document?'']
                   else questions @ [''What technologies or platforms does this use?''])
             else questions)
      in if length questions < 2
         then [''Can you provide more details about your documentation needs?'',
               ''What specific aspects should the documentation cover?'',
               ''Are there any particular requirements or constraints?'']
         else questions)"

definition ask_basic_questions :: "conversation \<Rightarrow> reply \<times> conversation" where
  "ask_basic_questions st =
     (case conv_context st of
        None \<Rightarrow> (ErrorStatus ''No context'', st)
      | Some c \<Rightarrow>
         (let c = c\<lparr>last_questions := PyList (map PyStr (take 3 (adaptive_questions c)))\<rparr>
          in (NeedsClarification (clarification_round c) (last_questions c) None None,
              st\<lparr>conv_context := Some c\<rparr>)))"

text \<open>The auto-detected part of the analysis prompt. Joining a stored value that is not
  iterable, or a list that holds a non-string, raises \<^verbatim>\<open>TypeError\<close>.\<close>

definition joined_item :: "string \<Rightarrow> (string \<times> pyval) list \<Rightarrow> string \<Rightarrow> py_exception + string list" where
  "joined_item label info key =
     (case dict_get info key of
        None \<Rightarrow> Inr []
      | Some v \<Rightarrow>
         if \<not> truthy v then Inr []
         else (case py_join '', '' v of Inl ex \<Rightarrow> Inl ex | Inr text \<Rightarrow> Inr [label @ text]))"

definition detected_context :: "ConversationContext \<Rightarrow> py_exception + string" where
  "detected_context c =
     (let info = gathered_info c
      in case joined_item ''Detected Technologies: '' info ''detected_technologies'' of
           Inl ex \<Rightarrow> Inl ex
         | Inr techs \<Rightarrow>
            (let domain =
                   (case dict_get info ''detected_domain'' of
                      None \<Rightarrow> []
                    | Some v \<Rightarrow> if truthy v then [''Detected Domain: '' @ py_str v] else [])
             in case joined_item ''Suggested Documents: '' info ''suggested_document_types'' of
                  Inl ex \<Rightarrow> Inl ex
                | Inr docs \<Rightarrow>
                   (case joined_item ''File Types: '' info ''file_types'' of
                      Inl ex \<Rightarrow> Inl ex
                    | Inr files \<Rightarrow>
                       (let detected_items = techs @ domain @ docs @ files
                        in Inr (if detected_items \<noteq> []
                                then ''\<newline>\<newline>Auto-Detected Context:\<newline>'' @
                                     join ''\<newline>'' (map (\<lambda>item. ''- '' @ item) detected_items)
                                else [])))))"

definition analysis_prompt :: "string \<Rightarrow> string \<Rightarrow> string" where
  \<open>analysis_prompt context_summary detected =
     ''Analyze this conversation and determine what critical information is still missing:\<newline>\<newline>'' @
     context_summary @ detected @
     ''\<newline>\<newline>Based on what we know (including auto-detected context), generate 2-3 SPECIFIC, HIGHLY TARGETED questions.\<newline>\<newline>'' @
     ''IMPORTANT Guidelines:\<newline>'' @
     ''1. Use detected technologies to ask framework-specific questions (e.g., "I see FastAPI - do you need OpenAPI/Swagger docs?")\<newline>'' @
     ''2. If domain is detected, ask domain-specific questions (e.g., for e-commerce: "payment integration docs needed?")\<newline>'' @
     ''3. Build on previous answers and detected context\<newline>'' @
     ''4. Focus on the most critical missing information\<newline>'' @
     ''5. Be conversational and easy to answer\<newline>'' @
     ''6. Suggest document types based on detected tech stack\<newline>\<newline>'' @
     ''Respond in JSON format:\<newline>{\<newline>'' @
     ''  "analysis": "what we know vs what's missing",\<newline>'' @
     ''  "priority_questions": ["question1", "question2", "question3"],\<newline>'' @
     ''  "suggested_defaults": {"key": "reasonable default value"},\<newline>'' @
     ''  "confidence_assessment": "why we can/cannot proceed"\<newline>}\<newline>''\<close>

text \<open>\<^verbatim>\<open>_ask_intelligent_questions\<close>. The round counter is incremented first; the
  prompt is built outside the \<^verbatim>\<open>try\<close> block, so an exception there propagates; inside
  the block every exception falls back to \<^verbatim>\<open>_ask_basic_questions\<close>.\<close>

definition ask_intelligent_questions :: "env \<Rightarrow> conversation \<Rightarrow> (py_exception + reply) \<times> conversation" where
  "ask_intelligent_questions e st =
     (case conv_context st of
        None \<Rightarrow> (Inr (ErrorStatus ''No context''), st)
      | Some c \<Rightarrow>
         (let c = c\<lparr>clarification_round := clarification_round c + 1\<rparr>;
              st = st\<lparr>conv_context := Some c\<rparr>
          in case detected_context c of
               Inl ex \<Rightarrow> (Inl ex, st)
             | Inr detected \<Rightarrow>
                (let (response, tr) =
                       execute_async e (dispatcher e)
                         (analysis_prompt (get_context_summary c) detected) [] (calls st);
                     st = st\<lparr>calls := tr\<rparr>;
                     fallback = (case ask_basic_questions st of (r, st') \<Rightarrow> (Inr r, st'))
                 in case extract_json_from_response e response of
                      PyDict analysis \<Rightarrow>
                        (let questions =
                               (case dict_get analysis ''priority_questions'' of
                                  None \<Rightarrow> PyList [] | Some q \<Rightarrow> q)
                         in case py_slice 3 questions of
                              Inl ex \<Rightarrow> fallback
                            | Inr batch \<Rightarrow>
                               (let c = c\<lparr>last_questions := batch\<rparr>
                                in (Inr (NeedsClarification (clarification_round c) (last_questions c)
                                      (Some (case dict_get analysis ''analysis'' of
                                               None \<Rightarrow> PyStr [] | Some a \<Rightarrow> a))
                                      (Some (case dict_get analysis ''suggested_defaults'' of
                                               None \<Rightarrow> False | Some d \<Rightarrow> truthy d))),
                                    st\<lparr>conv_context := Some c\<rparr>)))
                    | _ \<Rightarrow> fallback)))"


subsection \<open>Generation with the self-critique loop\<close>

definition enriched_request :: "ConversationContext \<Rightarrow> string" where
  "enriched_request c =
     user_request c @
     (if gathered_info c \<noteq> []
      then ''\<newline>\<newline>Additional Context:\<newline>'' @
           concat (map (\<lambda>(key, val). ''- '' @ key @ '': '' @ py_str val @ ''\<newline>'') (gathered_info c))
      else []) @
     (if conversation_history c \<noteq> []
      then ''\<newline>\<newline>From our conversation:\<newline>'' @
           concat (map (\<lambda>ex. ''Q: '' @ question ex @ ''\<newline>'' @ ''A: '' @ answer ex @ ''\<newline>\<newline>'')
                     (conversation_history c))
      else [])"

definition critique_prompt :: "string \<Rightarrow> string list \<Rightarrow> string" where
  "critique_prompt document_preview quality_issues =
     ''Critique this document and suggest specific improvements:\<newline>\<newline>'' @
     ''Document Preview:\<newline>'' @ document_preview @ ''\<newline>\<newline>'' @
     ''Detected Issues:\<newline>'' @
     join ''\<newline>'' (map (\<lambda>issue. ''- '' @ issue) quality_issues) @ ''\<newline>\<newline>'' @
     ''Provide:\<newline>'' @
     ''1. Specific problems with structure, content, or completeness\<newline>'' @
     ''2. Concrete suggestions for improvement\<newline>'' @
     ''3. Missing sections that should be added\<newline>'' @
     ''4. Content that needs expansion\<newline>\<newline>'' @
     ''Format your response as actionable recommendations.''"

definition critique_feedback :: "int \<Rightarrow> string \<Rightarrow> string" where
  "critique_feedback iteration critique =
     ''\<newline>\<newline>=== SELF-CRITIQUE FEEDBACK (Iteration '' @ str_int iteration @ '') ===\<newline>'' @
     ''Previous attempt had the following issues:\<newline>'' @ critique @ ''\<newline>\<newline>'' @
     ''Please address these issues in the regenerated document.\<newline>''"

text \<open>\<^verbatim>\<open>result.get('quality', {}).get('issues', [])\<close> and
  \<^verbatim>\<open>result.get('quality', {}).get('confidence')\<close>\<close>

definition quality_issues_of :: "generation \<Rightarrow> string list" where
  "quality_issues_of result = (case quality result of None \<Rightarrow> [] | Some q \<Rightarrow> issues q)"

definition quality_confidence_of :: "generation \<Rightarrow> string option" where
  "quality_confidence_of result = map_option confidence (quality result)"

text \<open>
  \<^verbatim>\<open>_proceed_with_generation\<close>. The generation itself
  (\<^verbatim>\<open>DocumentationOrchestrator.generate_documentation_async\<close>) is the parameter of \<open>env\<close>:
  it runs the pipeline and may open a nested interactive session. Reading
  \<^verbatim>\<open>result['document']\<close> of a result without that key raises \<^verbatim>\<open>KeyError\<close>.
\<close>

function proceed_with_generation :: "env \<Rightarrow> conversation \<Rightarrow> (py_exception + reply) \<times> conversation" where
  "proceed_with_generation e st =
     (case conv_context st of
        None \<Rightarrow> (Inr (ErrorStatus ''No context''), st)
      | Some c \<Rightarrow>
         (let request = enriched_request c;
              calls1 = calls st @ [GenerateDocumentation request];
              result = generate_documentation_async e calls1 request (code_directory c) (input_files c)
          in if enable_self_critique c \<and> ''low_confidence'' \<in> set (result_flags result)
                \<and> critique_iterations c < max_critique_iterations c
             then
               (let c1 = c\<lparr>critique_iterations := critique_iterations c + 1\<rparr>
                in case document result of
                     None \<Rightarrow> (Inl KeyError, st\<lparr>conv_context := Some c1, calls := calls1\<rparr>)
                   | Some doc \<Rightarrow>
                      (let (critique, calls2) =
                             execute_async e (editor e)
                               (critique_prompt (take 2000 doc) (quality_issues_of result)) [] calls1;
                           request2 = request @ critique_feedback (critique_iterations c1) critique;
                           c2 = update_info c1
                                  (''critique_iteration_'' @ str_int (critique_iterations c1))
                                  (PyStr critique);
                           calls3 = calls2 @ [GenerateDocumentation request2];
                           result2 = generate_documentation_async e calls3 request2
                                       (code_directory c2) (input_files c2);
                           st2 = st\<lparr>conv_context := Some c2, calls := calls3\<rparr>
                       in if quality_confidence_of result2 \<noteq> Some ''low''
                          then (Inr (Generated result2), st2)
                          else if critique_iterations c2 < max_critique_iterations c2
                          then proceed_with_generation e st2
                          else (Inr (Generated result2), st2)))
             else (Inr (Generated result), st\<lparr>calls := calls1\<rparr>)))"
  by pat_completeness auto

termination
  by (relation "measure (\<lambda>(e, st). case conv_context st of None \<Rightarrow> 0
        | Some c \<Rightarrow> nat (max_critique_iterations c - critique_iterations c))")
     (auto simp: update_info_def)

declare proceed_with_generation.simps [simp del]

subsection \<open>Deciding whether to ask or to proceed\<close>

text \<open>\<^verbatim>\<open>_analyze_and_clarify\<close>\<close>

definition analyze_and_clarify :: "env \<Rightarrow> conversation \<Rightarrow> (py_exception + reply) \<times> conversation" where
  "analyze_and_clarify e st0 =
     (let st = st0\<lparr>calls := calls st0 @ [AnalyzeAndClarify]\<rparr>
      in case conv_context st of
           None \<Rightarrow> (Inr (ErrorStatus ''No context''), st)
         | Some c0 \<Rightarrow>
            (let confidence = calculate_confidence (Some c0);
                 c = c0\<lparr>confidence_score := confidence\<rparr>;
                 st = st\<lparr>conv_context := Some c\<rparr>
             in if confidence \<ge> 7 / 10 then proceed_with_generation e st
                else if clarification_round c \<ge> max_clarification_rounds c
                then proceed_with_generation e st
                else if empty_response_count c \<ge> max_empty_responses c
                then proceed_with_generation e st
                else if clarification_round c \<ge> 2
                        \<and> (gathered_info c = [] \<or> length (gathered_info c) < 2)
                then proceed_with_generation e st
                else ask_intelligent_questions e st))"

subsection \<open>Ingesting an answer\<close>

text \<open>\<^verbatim>\<open>_get_last_questions\<close>\<close>

definition get_last_questions :: "ConversationContext option \<Rightarrow> pyval" where
  "get_last_questions context =
     (case context of
        None \<Rightarrow> PyList []
      | Some c \<Rightarrow>
         if truthy (last_questions c) then last_questions c
         else if conversation_history c \<noteq> []
         then PyList (map PyStr
                (filter (\<lambda>q. q \<noteq> [])
                   (map py_strip (py_split_sep (CHR '';'') (question (last (conversation_history c)))))))
         else PyList [])"

definition unhelpful_patterns :: "string list" where
  "unhelpful_patterns =
     [''idk'', ''i don'' @ [CHR 0x27] @ ''t know'', ''dunno'', ''skip'', ''pass'', ''whatever'', ''n/a'', ''none'']"

definition extraction_prompt :: "string \<Rightarrow> string \<Rightarrow> string" where
  "extraction_prompt user_response summary =
     ''Extract structured information from this user response:\<newline>\<newline>'' @
     ''User Response: '' @ user_response @ ''\<newline>\<newline>'' @
     ''Context of Conversation:\<newline>'' @ summary @ ''\<newline>\<newline>'' @
     ''Extract and structure:\<newline>'' @
     ''1. Application type/domain\<newline>'' @
     ''2. Document types requested\<newline>'' @
     ''3. Key features mentioned\<newline>'' @
     ''4. Security requirements\<newline>'' @
     ''5. Any other relevant details\<newline>\<newline>'' @
     ''Respond in JSON format with extracted information.''"

text \<open>The \<^verbatim>\<open>try\<close> block that merges the extracted facts: every truthy value of a
  dictionary is stored under its key; a reply that is no dictionary raises at
  \<^verbatim>\<open>info.items()\<close>, and the raw response is stored under \<^verbatim>\<open>latest_response\<close>.\<close>

definition merge_extracted :: "ConversationContext \<Rightarrow> pyval \<Rightarrow> string \<Rightarrow> ConversationContext" where
  "merge_extracted c info user_response =
     (case info of
        PyDict items \<Rightarrow>
          foldl (\<lambda>c (key, val). if truthy val then update_info c key val else c) c items
      | _ \<Rightarrow> update_info c ''latest_response'' (PyStr user_response))"

text \<open>\<^verbatim>\<open>process_user_response\<close>\<close>

definition process_user_response ::
  "env \<Rightarrow> conversation \<Rightarrow> string \<Rightarrow> (py_exception + reply) \<times> conversation" where
  "process_user_response e st user_response =
     (case conv_context st of
        None \<Rightarrow> (Inr (ErrorStatus ''No active conversation''), st)
      | Some c \<Rightarrow>
         (let response_clean = (if user_response \<noteq> [] then py_strip user_response else [])
          in if response_clean = [] \<or> length response_clean < 3
             then
               (let c = c\<lparr>empty_response_count := empty_response_count c + 1\<rparr>;
                    st = st\<lparr>conv_context := Some c\<rparr>
                in if empty_response_count c \<ge> max_empty_responses c
                   then proceed_with_generation e st
                   else (Inr (NeedsClarification (clarification_round c) (last_questions c) None None), st))
             else
               (let c = (if any_in unhelpful_patterns (py_lower response_clean)
                            \<and> length response_clean < 20
                         then c\<lparr>empty_response_count := empty_response_count c + 1\<rparr>
                         else c\<lparr>empty_response_count := 0\<rparr>)
                in case py_join ''; '' (get_last_questions (Some c)) of
                     Inl ex \<Rightarrow> (Inl ex, st\<lparr>conv_context := Some c\<rparr>)
                   | Inr asked \<Rightarrow>
                      (let c = add_exchange c (now_iso e (calls st)) ''System'' asked user_response;
                           (extracted, calls1) =
                             execute_async e (analyst e)
                               (extraction_prompt user_response (get_context_summary c)) [] (calls st);
                           info = extract_json_from_response e extracted;
                           c = merge_extracted c info user_response
                       in analyze_and_clarify e (st\<lparr>conv_context := Some c, calls := calls1\<rparr>)))))"


section \<open>The interactive loop of the orchestrator\<close>

text \<open>
  The part of \<^verbatim>\<open>DocumentationOrchestrator.generate_documentation_async\<close> that runs once
  the coordinator has returned \<^verbatim>\<open>needs_clarification\<close>: a fresh context is created and
  pre-populated with the dispatcher's questions, \<^verbatim>\<open>_analyze_and_clarify\<close> is called, and
  the loop reads one line of input per turn.
\<close>

definition clarification_context ::
  "string \<Rightarrow> string option \<Rightarrow> string list option \<Rightarrow> generation \<Rightarrow> ConversationContext" where
  "clarification_context request directory files result =
     (let conv = new_context request directory files
      in case (case dispatch_info result of None \<Rightarrow> PyDict [] | Some d \<Rightarrow> d) of
           PyDict info \<Rightarrow>
             (case dict_get info ''clarification_questions'' of
                None \<Rightarrow> conv
              | Some qs \<Rightarrow> if truthy qs then conv\<lparr>last_questions := qs\<rparr> else conv)
         | _ \<Rightarrow> conv)"

text \<open>The \<^verbatim>\<open>while\<close> loop over the lines the user types; it stops when the result is no
  longer \<^verbatim>\<open>needs_clarification\<close>, when an exception propagates, or when the input ends.
  A generated result ends it: \<^verbatim>\<open>generate_documentation_async\<close> runs this same loop
  before it returns, so what it returns never has the status \<^verbatim>\<open>needs_clarification\<close>.\<close>

fun clarification_loop ::
  "env \<Rightarrow> string list \<Rightarrow> (py_exception + reply) \<times> conversation \<Rightarrow> (py_exception + reply) \<times> conversation" where
  "clarification_loop e [] (result, st) = (result, st)"
| "clarification_loop e (line # lines) (result, st) =
     (case result of
        Inr (NeedsClarification _ _ _ _) \<Rightarrow>
          (let user_response = py_strip line
           in if py_lower user_response \<in> set [''proceed'', ''continue'', ''skip'']
              then (case conv_context st of
                      Some c \<Rightarrow>
                        analyze_and_clarify e
                          (st\<lparr>conv_context := Some (c\<lparr>clarification_round := max_clarification_rounds c\<rparr>)\<rparr>)
                    | None \<Rightarrow> (Inr (ErrorStatus ''No conversation context''), st))
              else if user_response = [] then clarification_loop e lines (result, st)
              else clarification_loop e lines (process_user_response e st user_response))
      | _ \<Rightarrow> (result, st))"

definition clarification_session ::
  "env \<Rightarrow> string \<Rightarrow> string option \<Rightarrow> string list option \<Rightarrow> generation \<Rightarrow> string list \<Rightarrow> call list
     \<Rightarrow> (py_exception + reply) \<times> conversation" where
  "clarification_session e request directory files result lines tr =
     clarification_loop e lines
       (analyze_and_clarify e
          \<lparr>conv_context = Some (clarification_context request directory files result), calls = tr\<rparr>)"

section \<open>The quality assessor\<close>

definition section_indicators :: "string list" where
  "section_indicators = [''#'', ''##'', ''###'', ''Introduction'', ''Overview'', ''Requirements'', ''Conclusion'']"

definition error_indicators :: "string list" where
  "error_indicators = [''Error:'', ''Failed:'', ''not available'', ''not found'', ''Exception'']"

definition placeholders :: "string list" where
  "placeholders = [''TODO'', ''TBD'', ''[Insert'', ''[Add'', ''PLACEHOLDER'']"

text \<open>\<^verbatim>\<open>f'{x:.2f}'\<close> for a score that is a multiple of one fifth.\<close>

definition two_decimals :: "rat \<Rightarrow> string" where
  "two_decimals x =
     (let n = nat \<lfloor>x * 100\<rfloor>
      in digits (n div 100) @ ''.'' @ digits (n mod 100 div 10) @ digits (n mod 10))"

text \<open>\<^verbatim>\<open>_assess_document_quality\<close>; the document type and the context are not read.\<close>

definition assess_document_quality :: "string \<Rightarrow> string \<Rightarrow> (string \<times> pyval) list \<Rightarrow> assessment" where
  "assess_document_quality doc doc_type context =
     (let a = \<lparr> confidence = ''high'', flags = [], issues = [],
                word_count = length (py_split doc), has_sections = False, completeness_score = 0 \<rparr>;
          a = (if word_count a < 500
               then a\<lparr>confidence := ''low'', flags := flags a @ [''low_confidence''],
                      issues := issues a @ [''Document too short (< 500 words)'']\<rparr>
               else if word_count a < 1000
               then a\<lparr>confidence := ''medium'',
                      issues := issues a @ [''Document relatively short (< 1000 words)'']\<rparr>
               else a);
          a = a\<lparr>has_sections := any_in section_indicators doc\<rparr>;
          a = (if \<not> has_sections a
               then a\<lparr>confidence := ''low'', flags := flags a @ [''low_confidence''],
                      issues := issues a @ [''Missing standard document sections'']\<rparr>
               else a);
          a = (if any_in error_indicators doc
               then a\<lparr>confidence := ''low'', flags := flags a @ [''low_confidence''],
                      issues := issues a @ [''Document contains error messages'']\<rparr>
               else a);
          a = (if any_in placeholders doc
               then a\<lparr>confidence := ''medium'',
                      issues := issues a @ [''Document contains placeholder text'']\<rparr>
               else a);
          completeness_factors =
            [word_count a \<ge> 1000,
             has_sections a,
             length (filter (\<lambda>s. py_in s doc) section_indicators) \<ge> 3,
             py_in ''requirements'' (py_lower doc) \<or> py_in ''specification'' (py_lower doc),
             length (py_split_sep (CHR 0x0A) doc) \<ge> 20];
          a = a\<lparr>completeness_score :=
                  of_nat (length (filter (\<lambda>b. b) completeness_factors))
                    / of_nat (length completeness_factors)\<rparr>;
          a = (if completeness_score a < 1 / 2
               then a\<lparr>confidence := ''low'', flags := flags a @ [''low_confidence''],
                      issues := issues a @
                        [''Low completeness score: '' @ two_decimals (completeness_score a)]\<rparr>
               else a)
      in a)"

section \<open>The delegation coordinator\<close>

definition dispatch_prompt :: "string \<Rightarrow> string" where
  "dispatch_prompt request =
     ''Analyze this documentation request and provide:\<newline>'' @
     ''1. Document type(s) needed (BRD, FRD, NFRD, CLOUD, SECURITY, API, GENERIC)\<newline>'' @
     ''2. Workflow agents required\<newline>'' @
     ''3. Any clarifications needed\<newline>\<newline>'' @
     ''Request: '' @ request @ ''\<newline>\<newline>'' @
     ''Respond in JSON format with: document_type, workflow, needs_clarification''"

text \<open>Phase 1 parsing: \<open>Some info\<close> when the dispatcher's reply is a JSON dictionary
  whose \<^verbatim>\<open>needs_clarification\<close> is truthy; a reply that does not parse, or is no
  dictionary, is treated as the empty dictionary.\<close>

definition clarification_needed :: "env \<Rightarrow> string \<Rightarrow> pyval option" where
  "clarification_needed e dispatch_result =
     (case (case re_brace_object e dispatch_result of
              Some m \<Rightarrow> json_loads e m
            | None \<Rightarrow> json_loads e dispatch_result) of
        Some (PyDict info) \<Rightarrow>
          (case dict_get info ''needs_clarification'' of
             None \<Rightarrow> None
           | Some v \<Rightarrow> if truthy v then Some (PyDict info) else None)
      | _ \<Rightarrow> None)"

definition analyst_prompt :: "string \<Rightarrow> string" where
  "analyst_prompt request = ''Extract and structure requirements from:\<newline>'' @ request"

definition researcher_prompt :: "string \<Rightarrow> (string \<times> pyval) list \<Rightarrow> string" where
  "researcher_prompt request context =
     ''Analyze code for documentation:\<newline>Request: '' @ request @ ''\<newline>Directory: '' @
     (case dict_get context ''code_directory'' of None \<Rightarrow> ''N/A'' | Some d \<Rightarrow> py_str d)"

definition writer_prompt :: "string \<Rightarrow> string \<Rightarrow> string \<Rightarrow> string \<Rightarrow> string" where
  "writer_prompt request dispatch_result requirements code_analysis =
     ''Generate comprehensive documentation based on:\<newline>\<newline>'' @
     ''=== USER REQUEST ===\<newline>'' @ request @ ''\<newline>\<newline>'' @
     ''=== DISPATCH ANALYSIS ===\<newline>'' @ dispatch_result @ ''\<newline>\<newline>'' @
     ''=== REQUIREMENTS (from Analyst) ===\<newline>'' @ requirements @ ''\<newline>\<newline>'' @
     ''=== CODE ANALYSIS (from Researcher) ===\<newline>'' @ code_analysis @ ''\<newline>\<newline>'' @
     ''Generate complete, well-structured documentation in Markdown format.''"

definition security_prompt :: "string \<Rightarrow> string" where
  "security_prompt doc =
     ''Review this document for security and compliance issues:\<newline>\<newline>'' @
     take 2500 doc @ ''\<newline>\<newline>'' @
     ''Provide:\<newline>'' @
     ''1. Security concerns found\<newline>'' @
     ''2. Compliance requirements\<newline>'' @
     ''3. Recommended changes''"

definition editor_prompt :: "string \<Rightarrow> string \<Rightarrow> string" where
  "editor_prompt doc security_result =
     ''Polish and format this documentation:\<newline>\<newline>'' @ doc @ ''\<newline>\<newline>'' @
     ''Security Feedback:\<newline>'' @ security_result @ ''\<newline>\<newline>'' @
     ''Apply professional formatting, fix any issues, and ensure consistency.''"

definition no_code_placeholder :: string where
  "no_code_placeholder = ''No code provided for analysis''"

text \<open>\<^verbatim>\<open>context.get('code_directory') or context.get('input_files')\<close>\<close>

definition code_supplied :: "(string \<times> pyval) list \<Rightarrow> bool" where
  "code_supplied context =
     ((case dict_get context ''code_directory'' of None \<Rightarrow> False | Some d \<Rightarrow> truthy d)
      \<or> (case dict_get context ''input_files'' of None \<Rightarrow> False | Some fs \<Rightarrow> truthy fs))"

definition empty_generation :: generation where
  "empty_generation =
     \<lparr> status = None, message = None, document = None, output_path = None, document_type = None,
       workflow = [], agents_involved = [], collaboration_summary = None, coordination_mode = None,
       phase_log = [], result_flags = [], quality = None, dispatch_info = None \<rparr>"

text \<open>
  \<^verbatim>\<open>DelegationCoordinator.coordinate\<close>. The two tasks of Phase 2 are awaited together by
  \<^verbatim>\<open>asyncio.gather\<close>; the log records the analyst's call before the researcher's. Writing
  the document to its file can fail, which raises.
\<close>

definition coordinate ::
  "env \<Rightarrow> string \<Rightarrow> (string \<times> pyval) list \<Rightarrow> call list \<Rightarrow> (py_exception + generation) \<times> call list" where
  "coordinate e request context tr =
     (let (dispatch_result, tr) = execute_async e (dispatcher e) (dispatch_prompt request) [] tr
      in case clarification_needed e dispatch_result of
           Some info \<Rightarrow>
             (Inr (empty_generation\<lparr>status := Some ''needs_clarification'', dispatch_info := Some info\<rparr>), tr)
         | None \<Rightarrow>
            (let (requirements, tr) = execute_async e (analyst e) (analyst_prompt request) [] tr;
                 (code_analysis, tr) =
                   (if code_supplied context
                    then execute_async e (researcher e) (researcher_prompt request context) [] tr
                    else (no_code_placeholder, tr));
                 (doc, tr) =
                   execute_async e (writer e)
                     (writer_prompt request dispatch_result requirements code_analysis) [] tr;
                 (security_result, tr) =
                   execute_async e (security_reviewer e) (security_prompt doc) [] tr;
                 (final_document, tr) =
                   execute_async e (editor e) (editor_prompt doc security_result) [] tr;
                 doc_type = ''GENERIC'';
                 path = ''outputs/'' @ doc_type @ ''_delegation_'' @ now_stamp e tr @ ''.md''
             in if \<not> write_file e tr path final_document then (Inl OSError, tr)
                else
                  (Inr (empty_generation\<lparr>
                     document := Some final_document,
                     output_path := Some path,
                     document_type := Some doc_type,
                     workflow := [''Dispatcher'', ''Analyst'', ''Researcher'', ''Writer'',
                                  ''Security Reviewer'', ''Editor''],
                     agents_involved := [''Dispatcher'', ''Requirement Analyst'', ''Code Researcher'',
                                         ''Technical Writer'', ''Security Reviewer'', ''Editor & Formatter''],
                     collaboration_summary :=
                       Some ''MAF delegation with parallel execution (Phase 2: Analyst||Researcher)'',
                     coordination_mode := Some ''delegation'',
                     phase_log := [''Phase 1: Dispatcher analysis'',
                                   ''Phase 2: Parallel research (Analyst + Researcher)'',
                                   ''Phase 3: Writer synthesis'',
                                   ''Phase 4: Security review + Editor polish'']\<rparr>), tr)))"

section \<open>Example inputs\<close>

text \<open>A string of 51 characters, long enough for the detail bonus of the scorer.\<close>

definition long_fact :: string where
  "long_fact = replicate 51 (CHR ''x'')"

text \<open>A fresh context that already holds one detailed fact, and one that holds a short
  fact.\<close>

definition detailed_context :: ConversationContext where
  "detailed_context =
     (new_context ''Generate documentation'' None None)
       \<lparr>gathered_info := [(''key_features'', PyStr long_fact)]\<rparr>"

definition plain_context :: ConversationContext where
  "plain_context =
     (new_context ''Generate documentation'' None None)
       \<lparr>gathered_info := [(''application_type'', PyStr ''web app'')]\<rparr>"

text \<open>The six agents as \<^verbatim>\<open>specialized_agents.py\<close> names them, all registered.\<close>

definition named_agent :: "string \<Rightarrow> base_agent" where
  "named_agent n = \<lparr>agent_name = n, registered = True\<rparr>"

text \<open>An environment given by what the hosted model replies, what \<^verbatim>\<open>json.loads\<close>
  returns and what a generation returns; the regular expressions find nothing, the
  clock is fixed and writing files succeeds.\<close>

definition scripted_env ::
  "(string \<Rightarrow> call list \<Rightarrow> string \<Rightarrow> run_outcome) \<Rightarrow> (string \<Rightarrow> pyval option)
     \<Rightarrow> (call list \<Rightarrow> string \<Rightarrow> string option \<Rightarrow> string list option \<Rightarrow> generation) \<Rightarrow> env" where
  "scripted_env run loads gen =
     \<lparr> sdk_available = True, agent_run = run,
       dispatcher = named_agent ''Dispatcher'', analyst = named_agent ''Requirement Analyst'',
       researcher = named_agent ''Code Researcher'', writer = named_agent ''Technical Writer'',
       security_reviewer = named_agent ''Security Reviewer'', editor = named_agent ''Editor & Formatter'',
       json_loads = loads, re_json_block = (\<lambda>s. None), re_priority_questions = (\<lambda>s. None),
       re_question_items = (\<lambda>s. []), re_analysis = (\<lambda>s. None), re_brace_object = (\<lambda>s. None),
       now_iso = (\<lambda>tr. ''2025-01-01T00:00:00''), now_stamp = (\<lambda>tr. ''20250101_000000''),
       write_file = (\<lambda>tr path content. True), generate_documentation_async = gen \<rparr>"

text \<open>Every call of the hosted model raises \<^verbatim>\<open>Exception("timed out")\<close>.\<close>

definition timeout_env :: env where
  "timeout_env =
     scripted_env (\<lambda>n tr m. Raised ''timed out'') (\<lambda>s. None) (\<lambda>tr r d f. empty_generation)"

text \<open>A four-word draft with a heading, two section words and a placeholder.\<close>

definition short_draft :: string where
  "short_draft = ''# Overview Requirements TODO''"

text \<open>A dispatcher that flags the request as ambiguous and proposes four questions.\<close>

definition four_questions_reply :: string where
  \<open>four_questions_reply =
     ''{"needs_clarification": true, "clarification_questions": ["What type of application is it?", "Which documents do you need?", "Who are the users?", "Which platform does it run on?"]}''\<close>

definition four_questions_info :: pyval where
  "four_questions_info =
     PyDict [(''needs_clarification'', PyBool True),
             (''clarification_questions'',
              PyList [PyStr ''What type of application is it?'', PyStr ''Which documents do you need?'',
                      PyStr ''Who are the users?'', PyStr ''Which platform does it run on?''])]"

definition four_questions_env :: env where
  "four_questions_env =
     scripted_env (\<lambda>n tr m. Returned four_questions_reply)
       (\<lambda>s. if s = four_questions_reply then Some four_questions_info else None)
       (\<lambda>tr r d f. empty_generation)"

text \<open>A conversation that has asked one batch of questions.\<close>

definition asked_once :: conversation where
  "asked_once =
     \<lparr> conv_context = Some (plain_context
         \<lparr>clarification_round := 1,
          last_questions := PyList [PyStr ''Who are the primary users or stakeholders?'']\<rparr>),
       calls = [] \<rparr>"

text \<open>A request that comes with a code directory.\<close>

definition code_request_context :: "(string \<times> pyval) list" where
  "code_request_context = [(''code_directory'', PyStr ''src''), (''input_files'', PyNone)]"

text \<open>An environment in which no reply is JSON and a generation returns a plain
  draft, and a conversation that has just been created.\<close>

definition plain_result :: generation where
  "plain_result = empty_generation\<lparr>document := Some ''# Draft''\<rparr>"

definition prose_env :: env where
  "prose_env =
     scripted_env (\<lambda>n tr m. Returned ''I need more detail.'') (\<lambda>s. None) (\<lambda>tr r d f. plain_result)"

definition fresh_conversation :: conversation where
  "fresh_conversation =
     \<lparr> conv_context = Some (new_context ''Generate documentation'' None None), calls = [] \<rparr>"

text \<open>A generation whose draft the assessor rates low, and an environment in which every
  generation returns it.\<close>

definition low_result :: generation where
  "low_result =
     (let q = assess_document_quality ''Too short.'' ''GENERIC'' []
      in empty_generation\<lparr>document := Some ''Too short.'', result_flags := flags q, quality := Some q\<rparr>)"

definition always_low_env :: env where
  "always_low_env =
     scripted_env (\<lambda>n tr m. Returned ''Add the missing sections.'') (\<lambda>s. None) (\<lambda>tr r d f. low_result)"

text \<open>An analyst that extracts a value of three blanks.\<close>

definition blank_reply :: string where
  \<open>blank_reply = ''{"application_type": "   "}''\<close>

definition blank_env :: env where
  "blank_env =
     scripted_env (\<lambda>n tr m. Returned blank_reply)
       (\<lambda>s. if s = blank_reply then Some (PyDict [(''application_type'', PyStr ''   '')]) else None)
       (\<lambda>tr r d f. plain_result)"

text \<open>A conversation that has asked one batch of questions and has counted one unhelpful
  answer.\<close>

definition asked_once_unhelpful :: conversation where
  "asked_once_unhelpful =
     \<lparr> conv_context = Some (plain_context
         \<lparr>clarification_round := 1,
          last_questions := PyList [PyStr ''Who are the primary users or stakeholders?''],
          empty_response_count := 1\<rparr>),
       calls = [] \<rparr>"

text \<open>The hosted model raises an exception whose message repeats a prompt of a thousand
  words under a heading.\<close>

definition filler :: "nat \<Rightarrow> string" where
  "filler n = concat (replicate n ''a '')"

definition long_message :: string where
  "long_message = ''### requirements '' @ filler 1000"

definition echo_env :: env where
  "echo_env =
     scripted_env (\<lambda>n tr m. Raised long_message) (\<lambda>s. None) (\<lambda>tr r d f. empty_generation)"

text \<open>A pattern that does not begin like the filler occurs in a text that ends with a
  thousand filler words exactly when it occurs in the text cut after twenty of them.\<close>

definition foreign :: "string \<Rightarrow> bool" where
  "foreign p \<longleftrightarrow> p \<noteq> [] \<and> hd p \<noteq> CHR ''a'' \<and> hd p \<noteq> CHR '' '' \<and> length p \<le> 40"

text \<open>A dispatcher whose analysis lists its question as an object, not as a string.\<close>

definition object_question_reply :: string where
  \<open>object_question_reply =
     ''{"priority_questions": [{"question": "Which framework is used?"}]}''\<close>

definition object_question_info :: pyval where
  "object_question_info =
     PyDict [(''priority_questions'',
              PyList [PyDict [(''question'', PyStr ''Which framework is used?'')]])]"

definition object_question_env :: env where
  "object_question_env =
     scripted_env (\<lambda>n tr m. Returned object_question_reply)
       (\<lambda>s. if s = object_question_reply then Some object_question_info else None)
       (\<lambda>tr r d f. plain_result)"

text \<open>Six answers, as many as a fresh context can take before it must hand off.\<close>

definition six_answers :: "string list" where
  "six_answers =
     [''a web shop in Django'', ''an API reference'', ''for the developers'',
      ''no constraints'', ''hosted on premises'', ''by next month'']"

section \<open>Counting calls, and notions used in the proofs\<close>

fun is_generation :: "call \<Rightarrow> bool" where
  "is_generation (GenerateDocumentation request) = True"
| "is_generation _ = False"

fun is_analysis :: "call \<Rightarrow> bool" where
  "is_analysis AnalyzeAndClarify = True"
| "is_analysis _ = False"

fun is_agent_call :: "call \<Rightarrow> bool" where
  "is_agent_call (ExecuteAsync who msg) = True"
| "is_agent_call _ = False"

text \<open>How often \<^verbatim>\<open>generate_documentation_async\<close>, \<^verbatim>\<open>_analyze_and_clarify\<close> and an agent
  were called, in a log of calls.\<close>

definition generation_calls :: "call list \<Rightarrow> nat" where
  "generation_calls cs = length (filter is_generation cs)"

definition analysis_calls :: "call list \<Rightarrow> nat" where
  "analysis_calls cs = length (filter is_analysis cs)"

definition agent_calls :: "call list \<Rightarrow> nat" where
  "agent_calls cs = length (filter is_agent_call cs)"

text \<open>Two contexts of one dialogue that differ at most in the gathered facts and in the
  critique counter.\<close>

definition same_dialogue :: "ConversationContext \<Rightarrow> ConversationContext \<Rightarrow> bool" where
  "same_dialogue c c' =
     (c' = c\<lparr>gathered_info := gathered_info c', critique_iterations := critique_iterations c'\<rparr>)"

text \<open>What one call of \<open>proceed_with_generation\<close> does to the conversation.\<close>

definition proceed_effect ::
  "env \<Rightarrow> ConversationContext \<Rightarrow> conversation \<Rightarrow> (py_exception + reply) \<Rightarrow> conversation \<Rightarrow> bool" where
  "proceed_effect e c st r st' =
     (\<exists>c' ext.
        st' = st\<lparr>conv_context := Some c', calls := calls st @ ext\<rparr>
        \<and> same_dialogue c c'
        \<and> analysis_calls ext = 0
        \<and> 1 \<le> generation_calls ext
        \<and> generation_calls ext \<le>
            (if enable_self_critique c
             then max 1 (2 * nat (max_critique_iterations c - critique_iterations c)) else 1)
        \<and> agent_calls ext \<le> nat (max_critique_iterations c - critique_iterations c)
        \<and> critique_iterations c \<le> critique_iterations c'
        \<and> critique_iterations c' \<le> max (critique_iterations c) (max_critique_iterations c)
        \<and> (case r of
             Inl ex \<Rightarrow> True
           | Inr (NeedsClarification rd q a d) \<Rightarrow> False
           | Inr (ErrorStatus m) \<Rightarrow> False
           | Inr (Generated g) \<Rightarrow>
               (\<exists>pre req. ext = pre @ [GenerateDocumentation req]
                  \<and> g = generate_documentation_async e (calls st') req (code_directory c) (input_files c))))"

text \<open>Two contexts of one dialogue that agree on the history of answers, on the
  counter of empty responses and on every configured bound.\<close>

definition same_answers :: "ConversationContext \<Rightarrow> ConversationContext \<Rightarrow> bool" where
  "same_answers c c' =
     (c' = c\<lparr>gathered_info := gathered_info c', critique_iterations := critique_iterations c',
            confidence_score := confidence_score c', clarification_round := clarification_round c',
            last_questions := last_questions c'\<rparr>)"

definition ask_effect ::
  "ConversationContext \<Rightarrow> conversation \<Rightarrow> (py_exception + reply) \<Rightarrow> conversation \<Rightarrow> bool" where
  "ask_effect c st r st' =
     (\<exists>c' ext.
        st' = st\<lparr>conv_context := Some c', calls := calls st @ ext\<rparr>
        \<and> c' = c\<lparr>clarification_round := clarification_round c + 1, last_questions := last_questions c'\<rparr>
        \<and> analysis_calls ext = 0 \<and> generation_calls ext = 0
        \<and> (case r of
             Inl ex \<Rightarrow> True
           | Inr (NeedsClarification rd q a d) \<Rightarrow>
               rd = clarification_round c + 1 \<and> q = last_questions c'
               \<and> (\<exists>k. py_len q = Some k \<and> k \<le> 3)
           | Inr other \<Rightarrow> False))"

text \<open>Whether a reply is a batch of questions.\<close>

fun is_question :: "(py_exception + reply) \<Rightarrow> bool" where
  "is_question (Inr (NeedsClarification rd q a d)) = True"
| "is_question _ = False"

definition analyze_effect ::
  "ConversationContext \<Rightarrow> conversation \<Rightarrow> (py_exception + reply) \<Rightarrow> conversation \<Rightarrow> bool" where
  "analyze_effect c st r st' =
     (\<exists>c' ext.
        st' = st\<lparr>conv_context := Some c', calls := calls st @ AnalyzeAndClarify # ext\<rparr>
        \<and> same_answers c c'
        \<and> analysis_calls ext = 0
        \<and> (if is_question r
           then clarification_round c < max_clarification_rounds c
                \<and> clarification_round c' = clarification_round c + 1
                \<and> empty_response_count c < max_empty_responses c
                \<and> generation_calls ext = 0
                \<and> (\<exists>k. py_len (last_questions c') = Some k \<and> k \<le> 3)
           else (1 \<le> generation_calls ext \<or> clarification_round c < max_clarification_rounds c)))"

text \<open>The context after the engagement check of \<open>process_user_response\<close>.\<close>

definition counted :: "ConversationContext \<Rightarrow> string \<Rightarrow> ConversationContext" where
  "counted c user_response =
     (if any_in unhelpful_patterns (py_lower (py_strip user_response))
         \<and> length (py_strip user_response) < 20
      then c\<lparr>empty_response_count := empty_response_count c + 1\<rparr>
      else c\<lparr>empty_response_count := 0\<rparr>)"

text \<open>The budget of analysis calls: while questions are being asked, the calls made so
  far and the rounds that are left never exceed the budget; once the dialogue is over,
  the calls exceed it by at most the one call that started a generation.\<close>

definition within_budget :: "nat \<Rightarrow> (py_exception + reply) \<Rightarrow> conversation \<Rightarrow> bool" where
  "within_budget N r st =
     (\<exists>c. conv_context st = Some c
        \<and> (if is_question r
            then analysis_calls (calls st)
                   + nat (max_clarification_rounds c - clarification_round c) \<le> N
            else analysis_calls (calls st)
                   \<le> N + (if 1 \<le> generation_calls (calls st) then 1 else 0)))"

text \<open>How a session can end other than with a batch of questions: with an exception, or
  with a generated result, a generation call being in the log.\<close>

fun is_raised :: "(py_exception + reply) \<Rightarrow> bool" where
  "is_raised (Inl ex) = True"
| "is_raised _ = False"

fun handed_off :: "(py_exception + reply) \<Rightarrow> conversation \<Rightarrow> bool" where
  "handed_off (Inr (Generated g)) st = (1 \<le> generation_calls (calls st))"
| "handed_off _ st = False"

text \<open>The lines of input that are not blank: the loop asks again for a blank line without
  passing it on.\<close>

definition answers :: "string list \<Rightarrow> string list" where
  "answers lines = filter (\<lambda>line. py_strip line \<noteq> []) lines"

text \<open>How many more answers a dialogue can take before it must hand off: every round that
  is left allows \<open>max_empty_responses\<close> answers, and the current round those that the
  counter of empty responses still allows.\<close>

definition patience :: "ConversationContext \<Rightarrow> int" where
  "patience c =
     (max_clarification_rounds c - clarification_round c) * max_empty_responses c
       + (max_empty_responses c - 1 - empty_response_count c)"

definition asking :: "ConversationContext \<Rightarrow> bool" where
  "asking c \<longleftrightarrow>
     clarification_round c \<le> max_clarification_rounds c
     \<and> 0 \<le> empty_response_count c
     \<and> empty_response_count c < max_empty_responses c"

section \<open>Verified properties\<close>

subsection \<open>Dictionaries and the fact score\<close>

lemma dict_set_fresh: "k \<notin> fst ` set kvs \<Longrightarrow> dict_set kvs k v = kvs @ [(k, v)]"
  by (induction kvs) auto

lemma score_facts_snoc: "score_facts (kvs @ [kv]) = score_fact (score_facts kvs) kv"
  by (simp add: score_facts_def)

lemma score_fact_inv:
  assumes "0 \<le> s" "t = 0 \<or> 1 \<le> t" "score_fact (s, t) kv = (s', t')"
  shows "0 \<le> s' \<and> (t' = 0 \<or> 1 \<le> t')"
  using assms by (cases kv) (auto simp: score_fact_def Let_def split: if_splits)

lemma score_facts_inv_aux:
  "0 \<le> fst acc \<Longrightarrow> snd acc = 0 \<or> 1 \<le> snd acc \<Longrightarrow>
   0 \<le> fst (foldl score_fact acc kvs) \<and>
   (snd (foldl score_fact acc kvs) = 0 \<or> 1 \<le> snd (foldl score_fact acc kvs))"
proof (induction kvs arbitrary: acc)
  case Nil
  then show ?case by simp
next
  case (Cons kv kvs)
  obtain s t where acc: "acc = (s, t)" by (cases acc)
  obtain s' t' where st: "score_fact (s, t) kv = (s', t')" by (cases "score_fact (s, t) kv")
  from Cons.prems acc have "0 \<le> s" "t = 0 \<or> 1 \<le> t" by auto
  from score_fact_inv[OF this st] have "0 \<le> s' \<and> (t' = 0 \<or> 1 \<le> t')" .
  then show ?case using Cons.IH[of "(s', t')"] acc st by simp
qed

lemma score_facts_inv:
  "score_facts kvs = (s, t) \<Longrightarrow> 0 \<le> s \<and> (t = 0 \<or> 1 \<le> t)"
  using score_facts_inv_aux[of "(0, 0)" kvs] by (simp add: score_facts_def)

lemma clamp_mono: "(x::rat) \<le> y \<Longrightarrow> max 0 (min 1 x) \<le> max 0 (min 1 y)"
  by auto

lemma info_score_mono:
  assumes "0 \<le> (s::rat)" "t = 0 \<or> 1 \<le> t" "s \<le> t"
  shows "(if t > 0 then s / max t 1 else 0) \<le> (s + 1) / max (t + 1) 1"
proof (cases "t = 0")
  case True
  then show ?thesis using assms by simp
next
  case False
  with assms have t1: "1 \<le> t" by simp
  then have "s / t \<le> (s + 1) / (t + 1)"
    using assms by (simp add: field_simps)
  then show ?thesis using t1 by (simp add: max_def)
qed

subsection \<open>C1: confidence and one more substantive fact\<close>

text \<open>
  C1, as stated, fails: a context that holds one detailed fact (more than 50
  characters, so its score is 1.3 out of 1) has confidence 0.91; adding the five-character
  fact \<^verbatim>\<open>hello\<close> under a new key gives 2.3 out of 2 and confidence 0.805.
\<close>

theorem confidence_drops_after_detailed_fact:
  "5 \<le> length (py_strip ''hello'') \<and> length (py_strip ''hello'') \<le> 50
   \<and> py_lower ''hello'' \<notin> set filler_values
   \<and> ''stakeholders'' \<notin> fst ` set (gathered_info detailed_context)
   \<and> calculate_confidence (Some detailed_context) = 91 / 100
   \<and> calculate_confidence (Some (update_info detailed_context ''stakeholders'' (PyStr ''hello'')))
       = 161 / 200
   \<and> calculate_confidence (Some (update_info detailed_context ''stakeholders'' (PyStr ''hello'')))
       < calculate_confidence (Some detailed_context)"
proof -
  have a: "calculate_confidence (Some detailed_context) = 91 / 100"
    by code_simp
  have b: "calculate_confidence (Some (update_info detailed_context ''stakeholders'' (PyStr ''hello'')))
       = 161 / 200"
    by code_simp
  have c: "5 \<le> length (py_strip ''hello'') \<and> length (py_strip ''hello'') \<le> 50
     \<and> py_lower ''hello'' \<notin> set filler_values"
    by code_simp
  have d: "''stakeholders'' \<notin> fst ` set (gathered_info detailed_context)"
    by (simp add: detailed_context_def)
  show ?thesis using c d by (simp add: a b)
qed

text \<open>Without a fact of more than 50 characters the score never exceeds the count.\<close>

lemma score_facts_no_bonus_aux:
  assumes "\<forall>kv \<in> set kvs. length (py_strip (py_str (snd kv))) \<le> 50"
    and "fst acc \<le> snd acc"
  shows "fst (foldl score_fact acc kvs) \<le> snd (foldl score_fact acc kvs)"
  using assms
proof (induction kvs arbitrary: acc)
  case Nil
  then show ?case by simp
next
  case (Cons kv kvs)
  have "fst (score_fact acc kv) \<le> snd (score_fact acc kv)"
    using Cons.prems by (cases acc, cases kv) (auto simp: score_fact_def Let_def)
  then show ?case using Cons.IH[of "score_fact acc kv"] Cons.prems(1) by simp
qed

lemma score_facts_no_bonus:
  assumes "\<forall>kv \<in> set kvs. length (py_strip (py_str (snd kv))) \<le> 50"
  shows "fst (score_facts kvs) \<le> snd (score_facts kvs)"
  using score_facts_no_bonus_aux[OF assms, of "(0, 0)"] by (simp add: score_facts_def)

text \<open>
  C1, amended: adding a substantive fact (a value whose text, stripped, has from 5 to 50
  characters and is not a filler value) under a key that is not yet present never
  decreases the confidence, provided no fact gathered so far is longer than 50
  characters, so that none carries the detail bonus. All other fields are those of the
  same context.
\<close>

theorem confidence_monotone_without_bonus:
  assumes fresh: "key \<notin> fst ` set (gathered_info c)"
    and len: "5 \<le> length (py_strip (py_str v))" "length (py_strip (py_str v)) \<le> 50"
    and nofill: "py_lower (py_str v) \<notin> set filler_values"
    and nobonus: "\<forall>kv \<in> set (gathered_info c). length (py_strip (py_str (snd kv))) \<le> 50"
  shows "calculate_confidence (Some c) \<le> calculate_confidence (Some (update_info c key v))"
proof -
  obtain sc t where st: "score_facts (gathered_info c) = (sc, t)"
    by (cases "score_facts (gathered_info c)")
  from score_facts_inv[OF st] have inv: "0 \<le> sc" "t = 0 \<or> 1 \<le> t" by auto
  from score_facts_no_bonus[OF nobonus] st have le: "sc \<le> t" by simp
  have stne: "py_strip (py_str v) \<noteq> []" using len by auto
  define sc' t' where "sc' = (if truthy v then sc + 1 else sc)"
    and "t' = (if truthy v then t + 1 else t)"
  have new: "score_facts (gathered_info (update_info c key v)) = (sc', t')"
    using fresh len nofill stne st unfolding sc'_def t'_def
    by (simp add: update_info_def dict_set_fresh score_facts_snoc score_fact_def Let_def)
  have ne: "gathered_info (update_info c key v) \<noteq> []"
    using fresh by (simp add: update_info_def dict_set_fresh)
  define I where "I = (if t > 0 then sc / max t 1 else 0)"
  define I' where "I' = (if t' > 0 then sc' / max t' 1 else 0)"
  define B where "B = (if conversation_history c \<noteq> []
                 then min (of_nat (quality_exchanges (conversation_history c)) * (1 / 10)) (1 / 4)
                 else (0::rat))"
  define P where "P = (if clarification_round c > 2 \<and> gathered_info c = []
                 then (2 / 10) * (of_int (clarification_round c - 2) :: rat) else 0)"
  define S where "S = (of_int (empty_response_count c) :: rat) * (15 / 100)"
  have info: "I \<le> I'"
  proof (cases "truthy v")
    case True
    have "t + 1 > 0" using inv by auto
    then show ?thesis
      unfolding I_def I'_def sc'_def t'_def using True info_score_mono[OF inv le] by simp
  next
    case False
    then show ?thesis unfolding I_def I'_def sc'_def t'_def by simp
  qed
  have pen: "0 \<le> P" unfolding P_def by simp
  have other: "conversation_history (update_info c key v) = conversation_history c"
    "clarification_round (update_info c key v) = clarification_round c"
    "empty_response_count (update_info c key v) = empty_response_count c"
    by (simp_all add: update_info_def)
  have old: "calculate_confidence (Some c) = max 0 (min 1 (I * (7 / 10) + B - P - S))"
    unfolding I_def B_def P_def S_def by (simp add: calculate_confidence_def st Let_def)
  have new': "calculate_confidence (Some (update_info c key v)) =
      max 0 (min 1 (I' * (7 / 10) + B - 0 - S))"
    unfolding I'_def B_def S_def using ne
    by (simp add: calculate_confidence_def new other Let_def)
  show ?thesis
    unfolding old new' by (rule clamp_mono) (use info pen in linarith)
qed

theorem confidence_monotone_plain_context:
  "''stakeholders'' \<notin> fst ` set (gathered_info plain_context)
   \<and> 5 \<le> length (py_strip (py_str (PyStr ''hello''))) \<and> length (py_strip (py_str (PyStr ''hello''))) \<le> 50
   \<and> py_lower (py_str (PyStr ''hello'')) \<notin> set filler_values
   \<and> list_all (\<lambda>kv. length (py_strip (py_str (snd kv))) \<le> 50) (gathered_info plain_context)
   \<and> calculate_confidence (Some plain_context)
       \<le> calculate_confidence (Some (update_info plain_context ''stakeholders'' (PyStr ''hello'')))"
proof -
  have h1: "''stakeholders'' \<notin> fst ` set (gathered_info plain_context)"
    by (simp add: plain_context_def)
  have h2: "5 \<le> length (py_strip (py_str (PyStr ''hello'')))" by code_simp
  have h3: "length (py_strip (py_str (PyStr ''hello''))) \<le> 50" by code_simp
  have h4: "py_lower (py_str (PyStr ''hello'')) \<notin> set filler_values" by code_simp
  have h5: "list_all (\<lambda>kv. length (py_strip (py_str (snd kv))) \<le> 50) (gathered_info plain_context)"
    by code_simp
  then have h5': "\<forall>kv \<in> set (gathered_info plain_context). length (py_strip (py_str (snd kv))) \<le> 50"
    by (simp add: list_all_iff)
  show ?thesis
    using confidence_monotone_without_bonus[OF h1 h2 h3 h4 h5'] h1 h2 h3 h4 h5 by simp
qed

subsection \<open>C7: a response that is too short\<close>

text \<open>
  C7: when the response strips to fewer than three characters and the incremented
  counter stays below the cap, \<open>process_user_response\<close> returns the same questions and
  the same round, makes no call, and changes no field of the context but
  \<open>empty_response_count\<close>, which grows by one.
\<close>

theorem short_response_only_counts:
  assumes "conv_context st = Some c"
    and "length (py_strip r) < 3"
    and "empty_response_count c + 1 < max_empty_responses c"
  shows "process_user_response e st r =
           (Inr (NeedsClarification (clarification_round c) (last_questions c) None None),
            st\<lparr>conv_context := Some (c\<lparr>empty_response_count := empty_response_count c + 1\<rparr>)\<rparr>)"
  using assms by (simp add: process_user_response_def Let_def)

theorem short_response_only_counts_example:
  "process_user_response timeout_env asked_once '' a '' =
     (Inr (NeedsClarification 1 (PyList [PyStr ''Who are the primary users or stakeholders?'']) None None),
      asked_once\<lparr>conv_context := Some (plain_context
         \<lparr>clarification_round := 1,
          last_questions := PyList [PyStr ''Who are the primary users or stakeholders?''],
          empty_response_count := 1\<rparr>)\<rparr>)"
proof -
  let ?c = "plain_context\<lparr>clarification_round := 1,
          last_questions := PyList [PyStr ''Who are the primary users or stakeholders?'']\<rparr>"
  have h1: "conv_context asked_once = Some ?c" by (simp add: asked_once_def)
  have h2: "length (py_strip '' a '') < 3" by code_simp
  have h3: "empty_response_count ?c + 1 < max_empty_responses ?c"
    by (simp add: plain_context_def new_context_def post_init_def)
  have e: "empty_response_count ?c = 0"
    by (simp add: plain_context_def new_context_def post_init_def)
  show ?thesis
    using short_response_only_counts[OF h1 h2 h3, of timeout_env] by (simp add: e)
qed

subsection \<open>C4: a short document with a placeholder\<close>

text \<open>
  C4 describes what the assessor is meant to do; the code does not: the placeholder rule
  assigns \<^verbatim>\<open>medium\<close> unconditionally, after the word-count rule has assigned
  \<^verbatim>\<open>low\<close>. The four-word draft ends with confidence \<^verbatim>\<open>medium\<close> while its flags still
  hold \<^verbatim>\<open>low_confidence\<close>.
\<close>

theorem placeholder_raises_short_document:
  "word_count (assess_document_quality short_draft ''GENERIC'' []) = 4
   \<and> confidence (assess_document_quality short_draft ''GENERIC'' []) = ''medium''
   \<and> flags (assess_document_quality short_draft ''GENERIC'' []) = [''low_confidence'']"
  by code_simp

text \<open>The flag alone is kept for every document under 500 words.\<close>

lemma short_document_is_flagged:
  assumes "length (py_split doc) < 500"
  shows "''low_confidence'' \<in> set (flags (assess_document_quality doc doc_type context))"
  using assms by (simp add: assess_document_quality_def Let_def)

subsection \<open>C5: the error text of a failed agent call\<close>

text \<open>\<open>execute_async\<close> always returns a string, and each of its failure strings begins
  with \<^verbatim>\<open>Error\<close>.\<close>

lemma execute_async_failure_text:
  "fst (execute_async e a m context tr) =
     (if \<not> sdk_available e
      then ''Error: Microsoft Agent Framework not available for '' @ agent_name a
      else if \<not> registered a
      then ''Error: '' @ agent_name a @ '' not registered. Call register_agent() first.''
      else case agent_run e (agent_name a) (tr @ [ExecuteAsync (agent_name a) m])
                  (if context \<noteq> []
                   then ''Context from previous steps:\<newline>'' @ format_context context @
                        ''\<newline>\<newline>'' @ m
                   else m) of
             Returned result \<Rightarrow> result
           | Raised msg \<Rightarrow> ''Error in '' @ agent_name a @ '': '' @ msg)"
  by (simp add: execute_async_def Let_def split: run_outcome.splits)

text \<open>For a short message the error-indicator rule does not fire either; the text is
  rated \<^verbatim>\<open>low\<close> only because it is short.\<close>

lemma short_failure_misses_error_rule:
  "fst (execute_async timeout_env (dispatcher timeout_env) ''Generate documentation'' [] [])
     = ''Error in Dispatcher: timed out''
   \<and> \<not> any_in error_indicators ''Error in Dispatcher: timed out''
   \<and> issues (assess_document_quality ''Error in Dispatcher: timed out'' ''GENERIC'' [])
       = [''Document too short (< 500 words)'', ''Missing standard document sections'',
          ''Low completeness score: 0.00'']"
  by code_simp

text \<open>Substrings, and the words of a text that ends with filler words.\<close>

lemma py_in_iff: "py_in p t \<longleftrightarrow> (\<exists>a b. t = a @ p @ b)"
proof (induction t)
  case Nil
  show ?case by auto
next
  case (Cons c cs)
  have "take (length p) (c # cs) = p \<longleftrightarrow> (\<exists>b. c # cs = p @ b)"
  proof
    assume "take (length p) (c # cs) = p"
    then have "c # cs = p @ drop (length p) (c # cs)"
      using append_take_drop_id[of "length p" "c # cs"] by simp
    then show "\<exists>b. c # cs = p @ b" ..
  next
    assume "\<exists>b. c # cs = p @ b"
    then show "take (length p) (c # cs) = p" by auto
  qed
  moreover have "(\<exists>a b. c # cs = a @ p @ b) \<longleftrightarrow> (\<exists>b. c # cs = p @ b) \<or> (\<exists>a b. cs = a @ p @ b)"
  proof
    assume "\<exists>a b. c # cs = a @ p @ b"
    then obtain a b where ab: "c # cs = a @ p @ b" by blast
    show "(\<exists>b. c # cs = p @ b) \<or> (\<exists>a b. cs = a @ p @ b)"
    proof (cases a)
      case Nil
      with ab show ?thesis by auto
    next
      case (Cons x a')
      with ab have "cs = a' @ p @ b" by simp
      then show ?thesis by blast
    qed
  next
    assume "(\<exists>b. c # cs = p @ b) \<or> (\<exists>a b. cs = a @ p @ b)"
    then show "\<exists>a b. c # cs = a @ p @ b"
    proof
      assume "\<exists>b. c # cs = p @ b"
      then obtain b where "c # cs = [] @ p @ b" by auto
      then show ?thesis by blast
    next
      assume "\<exists>a b. cs = a @ p @ b"
      then obtain a b where "c # cs = (c # a) @ p @ b" by auto
      then show ?thesis by blast
    qed
  qed
  ultimately show ?case using Cons.IH by simp
qed

text \<open>A pattern that holds a character foreign to the rest of the text can only occur
  near the front.\<close>

lemma py_in_tail:
  assumes c: "c \<in> set p" "c \<notin> set t1" "c \<notin> set t2" and len: "length p \<le> length t1"
  shows "py_in p (pre @ t1 @ t2) = py_in p (pre @ t1)"
proof
  assume "py_in p (pre @ t1)"
  then obtain a b where "pre @ t1 = a @ p @ b" unfolding py_in_iff by blast
  then have "pre @ t1 @ t2 = a @ p @ (b @ t2)" by (metis append.assoc)
  then show "py_in p (pre @ t1 @ t2)" unfolding py_in_iff by blast
next
  assume "py_in p (pre @ t1 @ t2)"
  then obtain a b where ab: "pre @ (t1 @ t2) = a @ (p @ b)" unfolding py_in_iff by auto
  from iffD1[OF append_eq_append_conv2 ab] obtain us where
    d: "pre = a @ us \<and> us @ (t1 @ t2) = p @ b \<or> pre @ us = a \<and> t1 @ t2 = us @ (p @ b)"
    by blast
  then show "py_in p (pre @ t1)"
  proof
    assume h: "pre @ us = a \<and> t1 @ t2 = us @ (p @ b)"
    then have "set p \<subseteq> set (t1 @ t2)" by auto
    with c show ?thesis by auto
  next
    assume h: "pre = a @ us \<and> us @ (t1 @ t2) = p @ b"
    then have pre: "pre = a @ us" and eq: "us @ (t1 @ t2) = p @ b" by simp_all
    from iffD1[OF append_eq_append_conv2 eq] obtain vs where
      d2: "us = p @ vs \<and> vs @ (t1 @ t2) = b \<or> us @ vs = p \<and> t1 @ t2 = vs @ b"
      by blast
    then show ?thesis
    proof
      assume "us = p @ vs \<and> vs @ (t1 @ t2) = b"
      then have "pre @ t1 = a @ p @ (vs @ t1)" using pre by simp
      then show ?thesis unfolding py_in_iff by blast
    next
      assume h2: "us @ vs = p \<and> t1 @ t2 = vs @ b"
      then have "length vs \<le> length t1" using len by auto
      with h2 have "t1 = vs @ drop (length vs) t1"
        by (metis append_eq_append_conv_if append_take_drop_id)
      then have "pre @ t1 = a @ p @ drop (length vs) t1" using pre h2 by (metis append.assoc)
      then show ?thesis unfolding py_in_iff by blast
    qed
  qed
qed


lemma split_ws_last_space:
  assumes "xs \<noteq> []" and "py_isspace (last xs)"
  shows "split_ws w (xs @ ys) = split_ws w xs @ split_ws [] ys"
  using assms
proof (induction xs arbitrary: w)
  case Nil
  then show ?case by simp
next
  case (Cons x xs)
  show ?case
  proof (cases "xs = []")
    case True
    with Cons.prems show ?thesis by simp
  next
    case False
    with Cons.prems have "py_isspace (last xs)" by simp
    from Cons.IH[OF False this] show ?thesis by simp
  qed
qed

lemma split_on_absent: "sep \<notin> set xs \<Longrightarrow> split_on sep w xs = [w @ xs]"
  by (induction xs arbitrary: w) auto

lemma filler_add: "filler (m + n) = filler m @ filler n"
  by (simp add: filler_def replicate_add)

lemma filler_set: "set (filler n) \<subseteq> {CHR ''a'', CHR '' ''}"
  unfolding filler_def by (induction n) auto

lemma filler_length: "length (filler n) = 2 * n"
  unfolding filler_def by (induction n) auto

lemma filler_words: "length (split_ws [] (filler n)) = n"
  unfolding filler_def by (induction n) (simp_all add: py_isspace_def)

lemma filler_lower: "py_lower (filler n) = filler n"
proof -
  have "py_lower ''a '' = ''a ''" by (simp add: py_lower_def py_lower_char_def)
  then show ?thesis
    unfolding py_lower_def filler_def by (induction n) simp_all
qed

lemma py_in_filler:
  assumes "foreign p"
  shows "py_in p (pre @ filler 1000) = py_in p (pre @ filler 20)"
proof -
  have mem: "hd p \<in> set p" using assms by (simp add: foreign_def)
  have out: "hd p \<notin> set (filler n)" for n
    using filler_set[of n] assms by (auto simp add: foreign_def)
  have len: "length p \<le> length (filler 20)"
    using assms by (simp add: filler_length foreign_def)
  have "filler 1000 = filler 20 @ filler 980"
    using filler_add[of 20 980] by simp
  then show ?thesis using py_in_tail[OF mem out out len] by simp
qed

lemma any_in_filler:
  assumes "list_all foreign ps"
  shows "any_in ps (pre @ filler 1000) = any_in ps (pre @ filler 20)"
  using assms by (induction ps) (simp_all add: any_in_def py_in_filler)

lemma filter_in_filler:
  assumes "list_all foreign ps"
  shows "filter (\<lambda>p. py_in p (pre @ filler 1000)) ps = filter (\<lambda>p. py_in p (pre @ filler 20)) ps"
  using assms by (induction ps) (simp_all add: py_in_filler)

lemma long_failure_assessed:
  "assess_document_quality (''Error in Editor & Formatter: '' @ long_message) ''GENERIC'' []
     = \<lparr>confidence = ''high'', flags = [], issues = [], word_count = 1007,
        has_sections = True, completeness_score = 4 / 5\<rparr>"
proof -
  define pre where "pre = ''Error in Editor & Formatter: ### requirements ''"
  define doc where "doc = pre @ filler 1000"
  have doc: "''Error in Editor & Formatter: '' @ long_message = doc"
    by (simp add: doc_def pre_def long_message_def)
  have "pre \<noteq> []" "py_isspace (last pre)" by (simp_all add: pre_def py_isspace_def)
  then have "split_ws [] doc = split_ws [] pre @ split_ws [] (filler 1000)"
    unfolding doc_def by (rule split_ws_last_space)
  moreover have "length (split_ws [] pre) = 7" unfolding pre_def by code_simp
  ultimately have wc: "length (py_split doc) = 1007"
    by (simp add: py_split_def filler_words)
  have "list_all foreign section_indicators" "list_all foreign error_indicators"
    "list_all foreign placeholders"
    by (simp_all add: section_indicators_def error_indicators_def placeholders_def foreign_def)
  then have cut: "any_in section_indicators doc = any_in section_indicators (pre @ filler 20)"
    "any_in error_indicators doc = any_in error_indicators (pre @ filler 20)"
    "any_in placeholders doc = any_in placeholders (pre @ filler 20)"
    "filter (\<lambda>s. py_in s doc) section_indicators
       = filter (\<lambda>s. py_in s (pre @ filler 20)) section_indicators"
    unfolding doc_def by (simp_all add: any_in_filler filter_in_filler)
  have s: "any_in section_indicators doc"
    unfolding cut pre_def by code_simp
  have e: "\<not> any_in error_indicators doc"
    unfolding cut pre_def by code_simp
  have p: "\<not> any_in placeholders doc"
    unfolding cut pre_def by code_simp
  have f: "length (filter (\<lambda>s. py_in s doc) section_indicators) = 3"
    unfolding cut pre_def by code_simp
  have "py_lower doc = py_lower pre @ filler 1000"
    by (simp add: doc_def py_lower_def filler_lower[unfolded py_lower_def])
  moreover have "foreign ''requirements''" by (simp add: foreign_def)
  ultimately have "py_in ''requirements'' (py_lower doc)
      = py_in ''requirements'' (py_lower pre @ filler 20)"
    by (simp add: py_in_filler)
  moreover have "py_in ''requirements'' (py_lower pre @ filler 20)"
    unfolding pre_def by code_simp
  ultimately have r: "py_in ''requirements'' (py_lower doc)" by simp
  have "CHR 0x0A \<notin> set doc"
    using filler_set[of 1000] by (auto simp add: doc_def pre_def)
  then have l: "length (py_split_sep (CHR 0x0A) doc) = 1"
    by (simp add: py_split_sep_def split_on_absent)
  show ?thesis
    unfolding doc
    by (simp add: assess_document_quality_def Let_def wc s e p f r l)
qed

text \<open>
  C5 describes what the boundary and the assessor are meant to do together; the code
  does not: when the call itself raises, the text is \<^verbatim>\<open>Error in <name>: <message>\<close>,
  which holds none of the assessor's error indicators unless the message does (the
  marker the assessor looks for is \<^verbatim>\<open>Error:\<close>). When the message is long and looks like
  a document, the failure text is rated \<^verbatim>\<open>high\<close>, with no flag and no issue.
\<close>

theorem run_failure_rated_high:
  "fst (execute_async echo_env (editor echo_env) ''Format the draft'' [] [])
     = ''Error in Editor & Formatter: '' @ long_message
   \<and> assess_document_quality
        (fst (execute_async echo_env (editor echo_env) ''Format the draft'' [] [])) ''GENERIC'' []
     = \<lparr>confidence = ''high'', flags = [], issues = [], word_count = 1007,
        has_sections = True, completeness_score = 4 / 5\<rparr>"
proof -
  have "fst (execute_async echo_env (editor echo_env) ''Format the draft'' [] [])
     = ''Error in Editor & Formatter: '' @ long_message"
    by (simp add: execute_async_failure_text echo_env_def scripted_env_def named_agent_def)
  then show ?thesis using long_failure_assessed by simp
qed

subsection \<open>C9: the size of the question batch\<close>

text \<open>Both question generators cap the batch at three.\<close>

lemma ask_basic_questions_cap:
  assumes "ask_basic_questions st = (r, st')" and "conv_context st = Some c"
  shows "\<exists>c' qs. conv_context st' = Some c' \<and> last_questions c' = PyList qs \<and> length qs \<le> 3"
  using assms by (auto simp: ask_basic_questions_def Let_def)

text \<open>
  C9 holds for the two question generators, but the orchestrator stores the
  dispatcher's \<^verbatim>\<open>clarification_questions\<close> as they are: with four questions in the
  dispatcher's reply, the new context holds a batch of four.
\<close>

theorem prepopulated_batch_of_four:
  "fst (coordinate four_questions_env ''Generate documentation'' [] [])
     = Inr (empty_generation\<lparr>status := Some ''needs_clarification'',
                              dispatch_info := Some four_questions_info\<rparr>)
   \<and> py_len (last_questions
        (clarification_context ''Generate documentation'' None None
           (empty_generation\<lparr>status := Some ''needs_clarification'',
                              dispatch_info := Some four_questions_info\<rparr>))) = Some 4"
  by code_simp

subsection \<open>C6: Phase 2 of the coordinator\<close>

lemma execute_async_calls:
  "snd (execute_async e a m context tr) = tr @ [ExecuteAsync (agent_name a) m]"
  by (simp add: execute_async_def Let_def split: run_outcome.splits)

lemma py_in_prefix: "py_in s (s @ b)"
proof (cases "s @ b")
  case Nil
  then show ?thesis by simp
next
  case (Cons x xs)
  have "take (length s) (s @ b) = s" by simp
  then show ?thesis by (simp add: Cons)
qed

lemma py_in_append: "py_in s (a @ s @ b)"
proof (induction a)
  case Nil
  show ?case using py_in_prefix by simp
next
  case (Cons x a)
  then show ?case by simp
qed

lemma researcher_prompt_distinct:
  "researcher_prompt r c \<noteq> dispatch_prompt r1"
  "researcher_prompt r c \<noteq> analyst_prompt r2"
  "researcher_prompt r c \<noteq> writer_prompt r3 d q a"
  "researcher_prompt r c \<noteq> security_prompt doc"
  "researcher_prompt r c \<noteq> editor_prompt doc s"
  by (simp_all add: researcher_prompt_def dispatch_prompt_def analyst_prompt_def writer_prompt_def
        security_prompt_def editor_prompt_def)

text \<open>
  C6: when Phase 1 does not ask for clarification, the calls of the coordinator are, in
  this order, the dispatcher, the analyst, the researcher exactly when code input was
  supplied (a truthy \<^verbatim>\<open>code_directory\<close> or \<^verbatim>\<open>input_files\<close>), then the writer, the
  security reviewer and the editor. The writer's prompt is built from the analyst's
  reply and from the code analysis, which is the researcher's reply as it is (whatever
  the text, also an empty or an error string) when the researcher was called, and the
  fixed placeholder otherwise; the code analysis occurs verbatim in that prompt.
\<close>

theorem phase2_code_analysis:
  fixes e :: env and request :: string and ctx :: "(string \<times> pyval) list" and tr :: "call list"
  defines "dispatched \<equiv> execute_async e (dispatcher e) (dispatch_prompt request) [] tr"
  defines "analysed \<equiv> execute_async e (analyst e) (analyst_prompt request) [] (snd dispatched)"
  defines "researched \<equiv>
             execute_async e (researcher e) (researcher_prompt request ctx) [] (snd analysed)"
  defines "code_analysis \<equiv>
             (if code_supplied ctx then fst researched else ''No code provided for analysis'')"
  defines "synthesis \<equiv> writer_prompt request (fst dispatched) (fst analysed) code_analysis"
  defines "written \<equiv>
             execute_async e (writer e) synthesis []
               (if code_supplied ctx then snd researched else snd analysed)"
  defines "reviewed \<equiv> execute_async e (security_reviewer e) (security_prompt (fst written)) [] (snd written)"
  assumes proceed: "clarification_needed e (fst dispatched) = None"
  shows "snd (coordinate e request ctx tr) =
           tr @ [ExecuteAsync (agent_name (dispatcher e)) (dispatch_prompt request),
                 ExecuteAsync (agent_name (analyst e)) (analyst_prompt request)]
              @ (if code_supplied ctx
                 then [ExecuteAsync (agent_name (researcher e)) (researcher_prompt request ctx)]
                 else [])
              @ [ExecuteAsync (agent_name (writer e)) synthesis,
                 ExecuteAsync (agent_name (security_reviewer e)) (security_prompt (fst written)),
                 ExecuteAsync (agent_name (editor e)) (editor_prompt (fst written) (fst reviewed))]
         \<and> ((ExecuteAsync (agent_name (researcher e)) (researcher_prompt request ctx)
                \<in> set (drop (length tr) (snd (coordinate e request ctx tr))))
              = code_supplied ctx)
         \<and> py_in code_analysis synthesis"
proof -
  have calls: "snd (coordinate e request ctx tr) =
           tr @ [ExecuteAsync (agent_name (dispatcher e)) (dispatch_prompt request),
                 ExecuteAsync (agent_name (analyst e)) (analyst_prompt request)]
              @ (if code_supplied ctx
                 then [ExecuteAsync (agent_name (researcher e)) (researcher_prompt request ctx)]
                 else [])
              @ [ExecuteAsync (agent_name (writer e)) synthesis,
                 ExecuteAsync (agent_name (security_reviewer e)) (security_prompt (fst written)),
                 ExecuteAsync (agent_name (editor e)) (editor_prompt (fst written) (fst reviewed))]"
    using proceed
    unfolding coordinate_def dispatched_def analysed_def researched_def code_analysis_def
      synthesis_def written_def reviewed_def
    by (simp add: Let_def case_prod_beta execute_async_calls no_code_placeholder_def)
  have member: "(ExecuteAsync (agent_name (researcher e)) (researcher_prompt request ctx)
                \<in> set (drop (length tr) (snd (coordinate e request ctx tr))))
              = code_supplied ctx"
    unfolding calls synthesis_def by (simp add: researcher_prompt_distinct)
  have verbatim: "py_in code_analysis synthesis"
    unfolding synthesis_def writer_prompt_def
    using py_in_append[of code_analysis
        "''Generate comprehensive documentation based on:\<newline>\<newline>'' @
         ''=== USER REQUEST ===\<newline>'' @ request @ ''\<newline>\<newline>'' @
         ''=== DISPATCH ANALYSIS ===\<newline>'' @ fst dispatched @ ''\<newline>\<newline>'' @
         ''=== REQUIREMENTS (from Analyst) ===\<newline>'' @ fst analysed @ ''\<newline>\<newline>'' @
         ''=== CODE ANALYSIS (from Researcher) ===\<newline>''"
        "''\<newline>\<newline>'' @ ''Generate complete, well-structured documentation in Markdown format.''"]
    by (simp only: append_assoc)
  show ?thesis
    using calls member verbatim by simp
qed

text \<open>Scenario C of the specification: a code directory is supplied and the researcher
  fails; its error text is the code analysis of the synthesis prompt.\<close>

theorem phase2_researcher_error_passed_on:
  "clarification_needed timeout_env
      (fst (execute_async timeout_env (dispatcher timeout_env)
              (dispatch_prompt ''Document the API'') [] [])) = None
   \<and> code_supplied code_request_context
   \<and> ExecuteAsync ''Code Researcher'' (researcher_prompt ''Document the API'' code_request_context)
        \<in> set (snd (coordinate timeout_env ''Document the API'' code_request_context []))
   \<and> py_in ''Error in Code Researcher: timed out''
        (writer_prompt ''Document the API'' ''Error in Dispatcher: timed out''
           ''Error in Requirement Analyst: timed out'' ''Error in Code Researcher: timed out'')"
proof -
  have h: "clarification_needed timeout_env
      (fst (execute_async timeout_env (dispatcher timeout_env)
              (dispatch_prompt ''Document the API'') [] [])) = None"
    by (simp add: clarification_needed_def timeout_env_def scripted_env_def)
  have s: "code_supplied code_request_context"
    by (simp add: code_supplied_def code_request_context_def)
  have names: "agent_name (researcher timeout_env) = ''Code Researcher''"
    "agent_name (dispatcher timeout_env) = ''Dispatcher''"
    "agent_name (analyst timeout_env) = ''Requirement Analyst''"
    by (simp_all add: timeout_env_def scripted_env_def named_agent_def)
  have replies: "\<And>a m tr. fst (execute_async timeout_env a m [] tr)
      = (if registered a then ''Error in '' @ agent_name a @ '': timed out''
         else ''Error: '' @ agent_name a @ '' not registered. Call register_agent() first.'')"
    by (simp add: execute_async_def timeout_env_def scripted_env_def Let_def)
  have reg: "registered (researcher timeout_env)" "registered (dispatcher timeout_env)"
    "registered (analyst timeout_env)"
    by (simp_all add: timeout_env_def scripted_env_def named_agent_def)
  note inst = phase2_code_analysis[OF h, of code_request_context]
  show ?thesis
    using inst h s by (simp add: names replies reg)
qed

subsection \<open>The effect of each method on the conversation\<close>

lemma same_dialogue_refl: "same_dialogue c c"
  by (simp add: same_dialogue_def)

lemma same_dialogue_fields:
  assumes "same_dialogue c c'"
  shows "user_request c' = user_request c" "conversation_history c' = conversation_history c"
    "clarification_round c' = clarification_round c"
    "max_clarification_rounds c' = max_clarification_rounds c"
    "confidence_score c' = confidence_score c" "code_directory c' = code_directory c"
    "input_files c' = input_files c" "last_questions c' = last_questions c"
    "empty_response_count c' = empty_response_count c"
    "max_empty_responses c' = max_empty_responses c"
    "max_critique_iterations c' = max_critique_iterations c"
    "enable_self_critique c' = enable_self_critique c"
  using assms unfolding same_dialogue_def
  by (cases c, cases c', simp)+

lemma same_dialogue_trans:
  assumes "same_dialogue a b" "same_dialogue b c"
  shows "same_dialogue a c"
  using assms unfolding same_dialogue_def
  by (cases a, cases b, cases c) simp

lemma same_dialogue_critique:
  "same_dialogue c (update_info (c\<lparr>critique_iterations := k\<rparr>) key v)"
  by (simp add: same_dialogue_def update_info_def)

lemma proceed_cases [consumes 1, case_names plain keyerror final again]:
  assumes ctx: "conv_context st = Some c"
  obtains
    (plain) r1 where
      "\<not> (enable_self_critique c \<and> critique_iterations c < max_critique_iterations c
           \<and> ''low_confidence'' \<in> set (result_flags
                (generate_documentation_async e (calls st @ [GenerateDocumentation r1]) r1
                   (code_directory c) (input_files c))))"
      "proceed_with_generation e st =
         (Inr (Generated (generate_documentation_async e (calls st @ [GenerateDocumentation r1]) r1
                            (code_directory c) (input_files c))),
          st\<lparr>calls := calls st @ [GenerateDocumentation r1]\<rparr>)"
  | (keyerror) r1 where
      "enable_self_critique c" "critique_iterations c < max_critique_iterations c"
      "proceed_with_generation e st =
         (Inl KeyError,
          st\<lparr>conv_context := Some (c\<lparr>critique_iterations := critique_iterations c + 1\<rparr>),
              calls := calls st @ [GenerateDocumentation r1]\<rparr>)"
  | (final) r1 who msg r2 c2 where
      "enable_self_critique c" "critique_iterations c < max_critique_iterations c"
      "same_dialogue c c2" "critique_iterations c2 = critique_iterations c + 1"
      "proceed_with_generation e st =
         (Inr (Generated (generate_documentation_async e
                 (calls st @ [GenerateDocumentation r1, ExecuteAsync who msg, GenerateDocumentation r2])
                 r2 (code_directory c) (input_files c))),
          st\<lparr>conv_context := Some c2,
              calls := calls st @ [GenerateDocumentation r1, ExecuteAsync who msg, GenerateDocumentation r2]\<rparr>)"
  | (again) r1 who msg r2 c2 where
      "enable_self_critique c" "critique_iterations c < max_critique_iterations c"
      "same_dialogue c c2" "critique_iterations c2 = critique_iterations c + 1"
      "critique_iterations c2 < max_critique_iterations c"
      "proceed_with_generation e st =
         proceed_with_generation e
           (st\<lparr>conv_context := Some c2,
               calls := calls st @ [GenerateDocumentation r1, ExecuteAsync who msg, GenerateDocumentation r2]\<rparr>)"
proof -
  define request where "request = enriched_request c"
  define calls1 where "calls1 = calls st @ [GenerateDocumentation request]"
  define result where
    "result = generate_documentation_async e calls1 request (code_directory c) (input_files c)"
  define c1 where "c1 = c\<lparr>critique_iterations := critique_iterations c + 1\<rparr>"
  show thesis
  proof (cases "enable_self_critique c \<and> ''low_confidence'' \<in> set (result_flags result)
                \<and> critique_iterations c < max_critique_iterations c")
    case False
    have "proceed_with_generation e st = (Inr (Generated result), st\<lparr>calls := calls1\<rparr>)"
      unfolding result_def calls1_def request_def
      by (subst proceed_with_generation.simps,
          insert ctx False[unfolded result_def calls1_def request_def], auto simp add: Let_def)
    with False show thesis
      using plain[of request] unfolding result_def calls1_def by blast
  next
    case True
    note cond = True
    show thesis
    proof (cases "document result")
      case None
      have "proceed_with_generation e st =
          (Inl KeyError, st\<lparr>conv_context := Some c1, calls := calls1\<rparr>)"
        unfolding result_def calls1_def request_def c1_def
        by (subst proceed_with_generation.simps,
            insert ctx cond[unfolded result_def calls1_def request_def]
              None[unfolded result_def calls1_def request_def], simp add: Let_def)
      then show thesis
        using keyerror[of request] cond unfolding c1_def calls1_def by blast
    next
      case (Some doc)
      define prompt where "prompt = critique_prompt (take 2000 doc) (quality_issues_of result)"
      define critique where "critique = fst (execute_async e (editor e) prompt [] calls1)"
      define calls2 where "calls2 = calls1 @ [ExecuteAsync (agent_name (editor e)) prompt]"
      define request2 where "request2 = request @ critique_feedback (critique_iterations c1) critique"
      define c2 where "c2 = update_info c1
          (''critique_iteration_'' @ str_int (critique_iterations c1)) (PyStr critique)"
      define calls3 where "calls3 = calls2 @ [GenerateDocumentation request2]"
      define result2 where
        "result2 = generate_documentation_async e calls3 request2 (code_directory c2) (input_files c2)"
      define st2 where "st2 = st\<lparr>conv_context := Some c2, calls := calls3\<rparr>"
      have ex: "execute_async e (editor e) prompt [] calls1 = (critique, calls2)"
        unfolding critique_def calls2_def using execute_async_calls[of e "editor e" prompt "[]" calls1]
        by (cases "execute_async e (editor e) prompt [] calls1") simp
      have unfold: "proceed_with_generation e st =
          (if quality_confidence_of result2 \<noteq> Some ''low'' then (Inr (Generated result2), st2)
           else if critique_iterations c2 < max_critique_iterations c2
           then proceed_with_generation e st2
           else (Inr (Generated result2), st2))"
        unfolding st2_def result2_def calls3_def c2_def request2_def c1_def request_def
        by (subst proceed_with_generation.simps,
            insert ctx cond[unfolded result_def calls1_def request_def]
              Some[unfolded result_def calls1_def request_def]
              ex[unfolded prompt_def calls1_def result_def request_def],
            simp add: Let_def)
      have sd: "same_dialogue c c2" unfolding c2_def c1_def by (rule same_dialogue_critique)
      have it: "critique_iterations c2 = critique_iterations c + 1"
        unfolding c2_def c1_def by (simp add: update_info_def)
      have same: "code_directory c2 = code_directory c" "input_files c2 = input_files c"
        "max_critique_iterations c2 = max_critique_iterations c"
        unfolding c2_def c1_def by (simp_all add: update_info_def)
      have calls3_eq: "calls3 = calls st @ [GenerateDocumentation request,
          ExecuteAsync (agent_name (editor e)) prompt, GenerateDocumentation request2]"
        unfolding calls3_def calls2_def calls1_def by simp
      show thesis
      proof (cases "quality_confidence_of result2 = Some ''low''
                    \<and> critique_iterations c2 < max_critique_iterations c2")
        case True
        then have "proceed_with_generation e st = proceed_with_generation e st2"
          using unfold by simp
        then show thesis
          using again[of c2 request "agent_name (editor e)" prompt request2] cond sd it True
          unfolding st2_def calls3_eq same by simp
      next
        case False
        then have "proceed_with_generation e st = (Inr (Generated result2), st2)"
          using unfold by auto
        then show thesis
          using final[of c2 request "agent_name (editor e)" prompt request2] cond sd it
          unfolding st2_def calls3_eq result2_def same by simp
      qed
    qed
  qed
qed

lemma count_append [simp]:
  "generation_calls (xs @ ys) = generation_calls xs + generation_calls ys"
  "analysis_calls (xs @ ys) = analysis_calls xs + analysis_calls ys"
  "agent_calls (xs @ ys) = agent_calls xs + agent_calls ys"
  by (simp_all add: generation_calls_def analysis_calls_def agent_calls_def)

lemma count_single [simp]:
  "generation_calls [] = 0" "analysis_calls [] = 0" "agent_calls [] = 0"
  "generation_calls (x # xs) = (if is_generation x then 1 else 0) + generation_calls xs"
  "analysis_calls (x # xs) = (if is_analysis x then 1 else 0) + analysis_calls xs"
  "agent_calls (x # xs) = (if is_agent_call x then 1 else 0) + agent_calls xs"
  by (simp_all add: generation_calls_def analysis_calls_def agent_calls_def)

lemma proceed_summary:
  assumes "conv_context st = Some c" "proceed_with_generation e st = (r, st')"
  shows "proceed_effect e c st r st'"
  using assms
proof (induction "nat (max_critique_iterations c - critique_iterations c)"
         arbitrary: st c r st' rule: less_induct)
  case less
  note ctx = less.prems(1) and run = less.prems(2)
  from ctx show ?case
  proof (cases rule: proceed_cases[where e = e])
    case (plain r1)
    have st': "st' = st\<lparr>conv_context := Some c, calls := calls st @ [GenerateDocumentation r1]\<rparr>"
      and r: "r = Inr (Generated (generate_documentation_async e (calls st @ [GenerateDocumentation r1]) r1
                            (code_directory c) (input_files c)))"
      using plain(2) run ctx by auto
    show ?thesis
      unfolding proceed_effect_def
      apply (rule exI[of _ c], rule exI[of _ "[GenerateDocumentation r1]"])
      using st' r by (simp add: same_dialogue_refl)
  next
    case (keyerror r1)
    have st': "st' = st\<lparr>conv_context := Some (c\<lparr>critique_iterations := critique_iterations c + 1\<rparr>),
                         calls := calls st @ [GenerateDocumentation r1]\<rparr>"
      and r: "r = Inl KeyError"
      using keyerror(3) run by auto
    show ?thesis
      unfolding proceed_effect_def
      apply (rule exI[of _ "c\<lparr>critique_iterations := critique_iterations c + 1\<rparr>"],
             rule exI[of _ "[GenerateDocumentation r1]"])
      using st' r keyerror(1,2) by (simp add: same_dialogue_def)
  next
    case (final r1 who msg r2 c2)
    let ?ext = "[GenerateDocumentation r1, ExecuteAsync who msg, GenerateDocumentation r2]"
    have st': "st' = st\<lparr>conv_context := Some c2, calls := calls st @ ?ext\<rparr>"
      and r: "r = Inr (Generated (generate_documentation_async e (calls st @ ?ext) r2
                            (code_directory c) (input_files c)))"
      using final(5) run by auto
    have pos: "1 \<le> nat (max_critique_iterations c - critique_iterations c)"
      using final(2) by simp
    have last: "\<exists>pre req. ?ext = pre @ [GenerateDocumentation req]
        \<and> generate_documentation_async e (calls st @ ?ext) r2 (code_directory c) (input_files c)
          = generate_documentation_async e (calls st @ ?ext) req (code_directory c) (input_files c)"
      by (rule exI[of _ "[GenerateDocumentation r1, ExecuteAsync who msg]"], rule exI[of _ r2]) simp
    show ?thesis
      unfolding proceed_effect_def
      apply (rule exI[of _ c2], rule exI[of _ ?ext])
      using st' r final(1-4) pos last by simp
  next
    case (again r1 who msg r2 c2)
    let ?ext = "[GenerateDocumentation r1, ExecuteAsync who msg, GenerateDocumentation r2]"
    let ?st2 = "st\<lparr>conv_context := Some c2, calls := calls st @ ?ext\<rparr>"
    note f = same_dialogue_fields[OF again(3)]
    have run2: "proceed_with_generation e ?st2 = (r, st')" using again(6) run by simp
    have ctx2: "conv_context ?st2 = Some c2" by simp
    have smaller: "nat (max_critique_iterations c2 - critique_iterations c2)
        < nat (max_critique_iterations c - critique_iterations c)"
      using again(2,4) f(11) by simp
    from less.hyps[OF smaller ctx2 run2] obtain c' ext where
      e1: "st' = ?st2\<lparr>conv_context := Some c', calls := calls ?st2 @ ext\<rparr>"
      and e2: "same_dialogue c2 c'"
      and e3: "analysis_calls ext = 0"
      and e4: "1 \<le> generation_calls ext"
      and e5: "generation_calls ext \<le>
            (if enable_self_critique c2
             then max 1 (2 * nat (max_critique_iterations c2 - critique_iterations c2)) else 1)"
      and e6: "agent_calls ext \<le> nat (max_critique_iterations c2 - critique_iterations c2)"
      and e7: "critique_iterations c2 \<le> critique_iterations c'"
      and e8: "critique_iterations c' \<le> max (critique_iterations c2) (max_critique_iterations c2)"
      and e9: "(case r of
             Inl ex \<Rightarrow> True
           | Inr (NeedsClarification rd q a d) \<Rightarrow> False
           | Inr (ErrorStatus m) \<Rightarrow> False
           | Inr (Generated g) \<Rightarrow>
               (\<exists>pre req. ext = pre @ [GenerateDocumentation req]
                  \<and> g = generate_documentation_async e (calls st') req (code_directory c2) (input_files c2)))"
      unfolding proceed_effect_def by blast
    have g: "generation_calls (?ext @ ext) \<le>
            (if enable_self_critique c
             then max 1 (2 * nat (max_critique_iterations c - critique_iterations c)) else 1)"
      using e5 again(1,2,4,5) f(11,12) by (simp split: if_splits)
    have a: "agent_calls (?ext @ ext) \<le> nat (max_critique_iterations c - critique_iterations c)"
      using e6 again(2,4,5) f(11) by simp
    have last: "(case r of
             Inl ex \<Rightarrow> True
           | Inr (NeedsClarification rd q a d) \<Rightarrow> False
           | Inr (ErrorStatus m) \<Rightarrow> False
           | Inr (Generated g) \<Rightarrow>
               (\<exists>pre req. ?ext @ ext = pre @ [GenerateDocumentation req]
                  \<and> g = generate_documentation_async e (calls st') req (code_directory c) (input_files c)))"
    proof (cases r)
      case (Inl x)
      then show ?thesis by simp
    next
      case (Inr rep)
      show ?thesis
      proof (cases rep)
        case (Generated g)
        with e9 Inr obtain pre req where "ext = pre @ [GenerateDocumentation req]"
          "g = generate_documentation_async e (calls st') req (code_directory c2) (input_files c2)"
          by auto
        then have "?ext @ ext = (?ext @ pre) @ [GenerateDocumentation req]
            \<and> g = generate_documentation_async e (calls st') req (code_directory c) (input_files c)"
          using f(6,7) by simp
        then show ?thesis unfolding Inr Generated sum.case reply.case by blast
      qed (use e9 Inr in auto)
    qed
    show ?thesis
      unfolding proceed_effect_def
      apply (rule exI[of _ c'], rule exI[of _ "?ext @ ext"])
      using e1 same_dialogue_trans[OF again(3) e2] e3 e4 g a e7 e8 again(2,4) f(11) last
      by simp
  qed
qed

lemma same_answers_fields:
  assumes "same_answers c c'"
  shows "user_request c' = user_request c" "conversation_history c' = conversation_history c"
    "max_clarification_rounds c' = max_clarification_rounds c"
    "code_directory c' = code_directory c" "input_files c' = input_files c"
    "empty_response_count c' = empty_response_count c"
    "max_empty_responses c' = max_empty_responses c"
    "max_critique_iterations c' = max_critique_iterations c"
    "enable_self_critique c' = enable_self_critique c"
  using assms unfolding same_answers_def
  by (cases c, cases c', simp)+

lemma same_answers_refl: "same_answers c c"
  by (simp add: same_answers_def)

lemma same_answers_trans:
  assumes "same_answers a b" "same_answers b c"
  shows "same_answers a c"
  using assms unfolding same_answers_def
  by (cases a, cases b, cases c) simp

lemma same_dialogue_answers: "same_dialogue c c' \<Longrightarrow> same_answers c c'"
  unfolding same_dialogue_def same_answers_def by (cases c, cases c') simp

text \<open>What \<open>ask_basic_questions\<close> and \<open>ask_intelligent_questions\<close> do.\<close>

lemma ask_basic_effect:
  assumes "conv_context st = Some c"
  shows "\<exists>qs. length qs \<le> 3 \<and> ask_basic_questions st =
           (NeedsClarification (clarification_round c) (PyList qs) None None,
            st\<lparr>conv_context := Some (c\<lparr>last_questions := PyList qs\<rparr>)\<rparr>)"
  using assms
  by (intro exI[of _ "map PyStr (take 3 (adaptive_questions c))"])
     (simp add: ask_basic_questions_def Let_def)

lemma ask_intelligent_effect:
  assumes ctx: "conv_context st = Some c" and run: "ask_intelligent_questions e st = (r, st')"
  shows "ask_effect c st r st'"
proof -
  define c1 where "c1 = c\<lparr>clarification_round := clarification_round c + 1\<rparr>"
  define st1 where "st1 = st\<lparr>conv_context := Some c1\<rparr>"
  show ?thesis
  proof (cases "detected_context c1")
    case (Inl ex)
    then have "ask_intelligent_questions e st = (Inl ex, st1)"
      using ctx unfolding st1_def c1_def by (simp add: ask_intelligent_questions_def Let_def)
    with run have "r = Inl ex" "st' = st1" by auto
    then show ?thesis
      unfolding ask_effect_def st1_def c1_def
      by (intro exI[of _ "c\<lparr>clarification_round := clarification_round c + 1\<rparr>"] exI[of _ "[]"]) simp
  next
    case (Inr detected)
    define prompt where "prompt = analysis_prompt (get_context_summary c1) detected"
    define response where "response = fst (execute_async e (dispatcher e) prompt [] (calls st))"
    define ext where "ext = [ExecuteAsync (agent_name (dispatcher e)) prompt]"
    define st2 where "st2 = st\<lparr>conv_context := Some c1, calls := calls st @ ext\<rparr>"
    have ex: "execute_async e (dispatcher e) prompt [] (calls st) = (response, calls st @ ext)"
      unfolding response_def ext_def
      using execute_async_calls[of e "dispatcher e" prompt "[]" "calls st"]
      by (cases "execute_async e (dispatcher e) prompt [] (calls st)") simp
    have ctx2: "conv_context st2 = Some c1" by (simp add: st2_def)
    from ask_basic_effect[OF ctx2] obtain qs where qs: "length qs \<le> 3"
      and basic: "ask_basic_questions st2 =
           (NeedsClarification (clarification_round c1) (PyList qs) None None,
            st2\<lparr>conv_context := Some (c1\<lparr>last_questions := PyList qs\<rparr>)\<rparr>)"
      by blast
    have fallback: "ask_effect c st (Inr (NeedsClarification (clarification_round c1) (PyList qs) None None))
        (st2\<lparr>conv_context := Some (c1\<lparr>last_questions := PyList qs\<rparr>)\<rparr>)"
      unfolding ask_effect_def st2_def c1_def ext_def
      using qs
      by (intro exI[of _ "c\<lparr>clarification_round := clarification_round c + 1, last_questions := PyList qs\<rparr>"]
                exI[of _ "[ExecuteAsync (agent_name (dispatcher e)) prompt]"]) simp
    have unfold: "ask_intelligent_questions e st =
        (case extract_json_from_response e response of
           PyDict analysis \<Rightarrow>
             (case py_slice 3 (case dict_get analysis ''priority_questions'' of
                                  None \<Rightarrow> PyList [] | Some q \<Rightarrow> q) of
                Inl ex \<Rightarrow> (Inr (NeedsClarification (clarification_round c1) (PyList qs) None None),
                             st2\<lparr>conv_context := Some (c1\<lparr>last_questions := PyList qs\<rparr>)\<rparr>)
              | Inr batch \<Rightarrow>
                  (Inr (NeedsClarification (clarification_round c1) batch
                          (Some (case dict_get analysis ''analysis'' of None \<Rightarrow> PyStr [] | Some a \<Rightarrow> a))
                          (Some (case dict_get analysis ''suggested_defaults'' of
                                   None \<Rightarrow> False | Some d \<Rightarrow> truthy d))),
                   st2\<lparr>conv_context := Some (c1\<lparr>last_questions := batch\<rparr>)\<rparr>))
         | _ \<Rightarrow> (Inr (NeedsClarification (clarification_round c1) (PyList qs) None None),
                 st2\<lparr>conv_context := Some (c1\<lparr>last_questions := PyList qs\<rparr>)\<rparr>))"
      using ctx Inr[unfolded c1_def] ex[unfolded prompt_def c1_def] basic[unfolded st2_def c1_def]
      unfolding st2_def c1_def
      by (simp add: ask_intelligent_questions_def Let_def split: pyval.splits sum.splits)
    show ?thesis
    proof (cases "extract_json_from_response e response")
      case (PyDict analysis)
      show ?thesis
      proof (cases "py_slice 3 (case dict_get analysis ''priority_questions'' of
                                  None \<Rightarrow> PyList [] | Some q \<Rightarrow> q)")
        case (Inl ex')
        then show ?thesis using unfold PyDict run fallback by simp
      next
        case (Inr batch)
        from py_slice_len[OF Inr] obtain k where k: "py_len batch = Some k" "k \<le> 3" by blast
        have "r = Inr (NeedsClarification (clarification_round c1) batch
                          (Some (case dict_get analysis ''analysis'' of None \<Rightarrow> PyStr [] | Some a \<Rightarrow> a))
                          (Some (case dict_get analysis ''suggested_defaults'' of
                                   None \<Rightarrow> False | Some d \<Rightarrow> truthy d)))"
          "st' = st2\<lparr>conv_context := Some (c1\<lparr>last_questions := batch\<rparr>)\<rparr>"
          using unfold PyDict Inr run by simp_all
        then show ?thesis
          unfolding ask_effect_def st2_def c1_def ext_def
          using k
          by (intro exI[of _ "c\<lparr>clarification_round := clarification_round c + 1, last_questions := batch\<rparr>"]
                exI[of _ "[ExecuteAsync (agent_name (dispatcher e)) prompt]"]) simp
      qed
    qed (use unfold run fallback in simp_all)
  qed
qed

lemma proceed_not_question:
  assumes "proceed_effect e c st r st'"
  shows "\<not> is_question r"
proof -
  from assms have h: "(case r of
             Inl ex \<Rightarrow> True
           | Inr (NeedsClarification rd q a d) \<Rightarrow> False
           | Inr (ErrorStatus m) \<Rightarrow> False
           | Inr (Generated g) \<Rightarrow> True)"
    unfolding proceed_effect_def by (auto split: sum.splits reply.splits)
  show ?thesis
  proof (cases r)
    case (Inr b)
    with h show ?thesis by (cases b) simp_all
  qed simp
qed

lemma analyze_and_clarify_effect:
  assumes ctx: "conv_context st = Some c" and run: "analyze_and_clarify e st = (r, st')"
  shows "analyze_effect c st r st'"
proof -
  define c1 where "c1 = c\<lparr>confidence_score := calculate_confidence (Some c)\<rparr>"
  define st1 where "st1 = st\<lparr>calls := calls st @ [AnalyzeAndClarify], conv_context := Some c1\<rparr>"
  define proceeds where "proceeds \<longleftrightarrow>
      calculate_confidence (Some c) \<ge> 7 / 10
      \<or> clarification_round c \<ge> max_clarification_rounds c
      \<or> empty_response_count c \<ge> max_empty_responses c
      \<or> (clarification_round c \<ge> 2 \<and> (gathered_info c = [] \<or> length (gathered_info c) < 2))"
  have ctx1: "conv_context st1 = Some c1" by (simp add: st1_def)
  have sa: "same_answers c c1" by (simp add: same_answers_def c1_def)
  have unfold: "analyze_and_clarify e st =
      (if proceeds then proceed_with_generation e st1 else ask_intelligent_questions e st1)"
    using ctx unfolding proceeds_def st1_def c1_def
    by (auto simp add: analyze_and_clarify_def Let_def)
  show ?thesis
  proof (cases proceeds)
    case True
    then have "proceed_with_generation e st1 = (r, st')" using unfold run by simp
    from proceed_summary[OF ctx1 this] have pe: "proceed_effect e c1 st1 r st'" .
    then obtain c' ext where
      a: "st' = st1\<lparr>conv_context := Some c', calls := calls st1 @ ext\<rparr>"
      and b: "same_dialogue c1 c'" and c: "analysis_calls ext = 0"
      and d: "1 \<le> generation_calls ext"
      unfolding proceed_effect_def by blast
    have "same_answers c c'"
      using same_answers_trans[OF sa same_dialogue_answers[OF b]] .
    then show ?thesis
      unfolding analyze_effect_def
      using a c d proceed_not_question[OF pe]
      by (intro exI[of _ c'] exI[of _ ext]) (simp add: st1_def)
  next
    case False
    then have "ask_intelligent_questions e st1 = (r, st')" using unfold run by simp
    from ask_intelligent_effect[OF ctx1 this] obtain c' ext where
      a: "st' = st1\<lparr>conv_context := Some c', calls := calls st1 @ ext\<rparr>"
      and b: "c' = c1\<lparr>clarification_round := clarification_round c1 + 1, last_questions := last_questions c'\<rparr>"
      and c: "analysis_calls ext = 0" and d: "generation_calls ext = 0"
      and q: "(case r of
             Inl ex \<Rightarrow> True
           | Inr (NeedsClarification rd q a d) \<Rightarrow>
               rd = clarification_round c1 + 1 \<and> q = last_questions c'
               \<and> (\<exists>k. py_len q = Some k \<and> k \<le> 3)
           | Inr other \<Rightarrow> False)"
      unfolding ask_effect_def by blast
    have sa': "same_answers c c'"
      using b unfolding same_answers_def c1_def by (cases c, cases c') simp
    have rd: "clarification_round c' = clarification_round c + 1"
      using b unfolding c1_def by (cases c, cases c') simp
    have lt: "clarification_round c < max_clarification_rounds c"
      "empty_response_count c < max_empty_responses c"
      using False unfolding proceeds_def by auto
    have len: "is_question r \<Longrightarrow> \<exists>k. py_len (last_questions c') = Some k \<and> k \<le> 3"
      using q by (cases r) (auto split: reply.splits)
    show ?thesis
      unfolding analyze_effect_def
      using a sa' c d rd lt len
      by (intro exI[of _ c'] exI[of _ ext]) (simp add: st1_def)
  qed
qed

lemma py_strip_Nil [simp]: "py_strip [] = []"
  by (simp add: py_strip_def)

lemma merge_fold_only_facts:
  "foldl (\<lambda>c (key, val). if truthy val then update_info c key val else c) c items =
     c\<lparr>gathered_info := gathered_info
        (foldl (\<lambda>c (key, val). if truthy val then update_info c key val else c) c items)\<rparr>"
proof (induction items arbitrary: c)
  case Nil
  show ?case by simp
next
  case (Cons kv items)
  obtain k v where kv: "kv = (k, v)" by (cases kv)
  show ?case
  proof (cases "truthy v")
    case True
    have "foldl (\<lambda>c (key, val). if truthy val then update_info c key val else c) (update_info c k v) items
        = (update_info c k v)\<lparr>gathered_info := gathered_info
        (foldl (\<lambda>c (key, val). if truthy val then update_info c key val else c) (update_info c k v) items)\<rparr>"
      by (rule Cons.IH)
    then show ?thesis using True kv by (simp add: update_info_def)
  next
    case False
    then show ?thesis using kv Cons.IH[of c] by simp
  qed
qed

lemma merge_only_facts:
  "merge_extracted c info u = c\<lparr>gathered_info := gathered_info (merge_extracted c info u)\<rparr>"
proof (cases info)
  case (PyDict items)
  then show ?thesis
    using merge_fold_only_facts[of c items] by (simp add: merge_extracted_def)
qed (simp_all add: merge_extracted_def update_info_def)

lemma get_last_questions_counted:
  "get_last_questions (Some (counted c u)) = get_last_questions (Some c)"
  by (simp add: get_last_questions_def counted_def)

lemma process_cases [consumes 1, case_names reask forced broken analysed]:
  assumes ctx: "conv_context st = Some c"
  obtains
    (reask) "length (py_strip u) < 3" "empty_response_count c + 1 < max_empty_responses c"
      "process_user_response e st u =
         (Inr (NeedsClarification (clarification_round c) (last_questions c) None None),
          st\<lparr>conv_context := Some (c\<lparr>empty_response_count := empty_response_count c + 1\<rparr>)\<rparr>)"
  | (forced) "length (py_strip u) < 3" "max_empty_responses c \<le> empty_response_count c + 1"
      "process_user_response e st u =
         proceed_with_generation e
           (st\<lparr>conv_context := Some (c\<lparr>empty_response_count := empty_response_count c + 1\<rparr>)\<rparr>)"
  | (broken) ex where "3 \<le> length (py_strip u)"
      "py_join ''; '' (get_last_questions (Some c)) = Inl ex"
      "process_user_response e st u = (Inl ex, st\<lparr>conv_context := Some (counted c u)\<rparr>)"
  | (analysed) asked prompt info where "3 \<le> length (py_strip u)"
      "py_join ''; '' (get_last_questions (Some c)) = Inr asked"
      "prompt = extraction_prompt u
          (get_context_summary (add_exchange (counted c u) (now_iso e (calls st)) ''System'' asked u))"
      "info = extract_json_from_response e
          (fst (execute_async e (analyst e) prompt [] (calls st)))"
      "process_user_response e st u =
         analyze_and_clarify e
           (st\<lparr>conv_context := Some (merge_extracted
                  (add_exchange (counted c u) (now_iso e (calls st)) ''System'' asked u) info u),
               calls := calls st @ [ExecuteAsync (agent_name (analyst e)) prompt]\<rparr>)"
proof (cases "length (py_strip u) < 3")
  case True
  then have short: "(if u \<noteq> [] then py_strip u else []) = [] \<or> length (if u \<noteq> [] then py_strip u else []) < 3"
    by auto
  show thesis
  proof (cases "empty_response_count c + 1 < max_empty_responses c")
    case True
    then show thesis
      using reask \<open>length (py_strip u) < 3\<close> ctx short
      by (simp add: process_user_response_def Let_def)
  next
    case False
    then show thesis
      using forced \<open>length (py_strip u) < 3\<close> ctx short
      by (simp add: process_user_response_def Let_def)
  qed
next
  case False
  then have long: "\<not> ((if u \<noteq> [] then py_strip u else []) = [] \<or> length (if u \<noteq> [] then py_strip u else []) < 3)"
    and clean: "(if u \<noteq> [] then py_strip u else []) = py_strip u"
    by auto
  have len: "3 \<le> length (py_strip u)" using False by simp
  show thesis
  proof (cases "py_join ''; '' (get_last_questions (Some c))")
    case (Inl ex)
    then have "process_user_response e st u = (Inl ex, st\<lparr>conv_context := Some (counted c u)\<rparr>)"
      using ctx long get_last_questions_counted[of c u]
      unfolding process_user_response_def Let_def clean counted_def
      by (simp split: if_splits)
    then show thesis using broken len Inl by blast
  next
    case (Inr asked)
    define prompt where "prompt = extraction_prompt u
          (get_context_summary (add_exchange (counted c u) (now_iso e (calls st)) ''System'' asked u))"
    define info where "info = extract_json_from_response e
          (fst (execute_async e (analyst e) prompt [] (calls st)))"
    have "process_user_response e st u =
         analyze_and_clarify e
           (st\<lparr>conv_context := Some (merge_extracted
                  (add_exchange (counted c u) (now_iso e (calls st)) ''System'' asked u) info u),
               calls := calls st @ [ExecuteAsync (agent_name (analyst e)) prompt]\<rparr>)"
      using ctx long Inr get_last_questions_counted[of c u]
      unfolding process_user_response_def Let_def clean info_def prompt_def
      by (simp add: counted_def case_prod_beta execute_async_calls split: if_splits)
    then show thesis using analysed[of asked prompt info] len Inr prompt_def info_def by blast
  qed
qed

lemma analyze_within_budget:
  assumes ctx: "conv_context st = Some c"
    and budget: "analysis_calls (calls st)
                   + nat (max_clarification_rounds c - clarification_round c) \<le> N"
    and run: "analyze_and_clarify e st = (r, st')"
  shows "within_budget N r st'"
proof -
  from analyze_and_clarify_effect[OF ctx run] obtain c' ext where
    a: "st' = st\<lparr>conv_context := Some c', calls := calls st @ AnalyzeAndClarify # ext\<rparr>"
    and b: "same_answers c c'" and n: "analysis_calls ext = 0"
    and q: "if is_question r
           then clarification_round c < max_clarification_rounds c
                \<and> clarification_round c' = clarification_round c + 1
                \<and> empty_response_count c < max_empty_responses c
                \<and> generation_calls ext = 0
                \<and> (\<exists>k. py_len (last_questions c') = Some k \<and> k \<le> 3)
           else (1 \<le> generation_calls ext \<or> clarification_round c < max_clarification_rounds c)"
    unfolding analyze_effect_def by blast
  note f = same_answers_fields[OF b]
  have count: "analysis_calls (calls st') = analysis_calls (calls st) + 1"
    using a n by simp
  have gen: "generation_calls ext \<le> generation_calls (calls st')"
    using a by simp
  show ?thesis
  proof (cases "is_question r")
    case True
    with q have "clarification_round c < max_clarification_rounds c"
      "clarification_round c' = clarification_round c + 1" by auto
    then show ?thesis
      unfolding within_budget_def using a True count budget f(3)
      by (intro exI[of _ c']) simp
  next
    case False
    with q have "1 \<le> generation_calls ext \<or> clarification_round c < max_clarification_rounds c"
      by simp
    then show ?thesis
      unfolding within_budget_def using a False count budget gen
      by (intro exI[of _ c']) auto
  qed
qed

lemma process_within_budget:
  assumes ctx: "conv_context st = Some c"
    and budget: "analysis_calls (calls st)
                   + nat (max_clarification_rounds c - clarification_round c) \<le> N"
    and run: "process_user_response e st u = (r, st')"
  shows "within_budget N r st'"
  using ctx
proof (cases rule: process_cases[where e = e and u = u])
  case reask
  with run have "is_question r"
    "st' = st\<lparr>conv_context := Some (c\<lparr>empty_response_count := empty_response_count c + 1\<rparr>)\<rparr>"
    by auto
  then show ?thesis
    unfolding within_budget_def using budget
    by (intro exI[of _ "c\<lparr>empty_response_count := empty_response_count c + 1\<rparr>"]) simp
next
  case forced
  let ?st1 = "st\<lparr>conv_context := Some (c\<lparr>empty_response_count := empty_response_count c + 1\<rparr>)\<rparr>"
  have "proceed_with_generation e ?st1 = (r, st')" using forced(3) run by simp
  from proceed_summary[OF _ this, of "c\<lparr>empty_response_count := empty_response_count c + 1\<rparr>"]
  have pe: "proceed_effect e (c\<lparr>empty_response_count := empty_response_count c + 1\<rparr>) ?st1 r st'"
    by simp
  then obtain c' ext where
    a: "st' = ?st1\<lparr>conv_context := Some c', calls := calls ?st1 @ ext\<rparr>"
    and n: "analysis_calls ext = 0"
    unfolding proceed_effect_def by blast
  show ?thesis
    unfolding within_budget_def using a n budget proceed_not_question[OF pe]
    by (intro exI[of _ c']) simp
next
  case (broken ex)
  with run have "r = Inl ex" "st' = st\<lparr>conv_context := Some (counted c u)\<rparr>" by auto
  then show ?thesis
    unfolding within_budget_def using budget
    by (intro exI[of _ "counted c u"]) simp
next
  case (analysed asked prompt info)
  define c3 where "c3 = merge_extracted
      (add_exchange (counted c u) (now_iso e (calls st)) ''System'' asked u) info u"
  define st3 where "st3 = st\<lparr>conv_context := Some c3,
      calls := calls st @ [ExecuteAsync (agent_name (analyst e)) prompt]\<rparr>"
  have run3: "analyze_and_clarify e st3 = (r, st')"
    using analysed(5) run unfolding st3_def c3_def by simp
  have ctx3: "conv_context st3 = Some c3" by (simp add: st3_def)
  have same: "clarification_round c3 = clarification_round c"
    "max_clarification_rounds c3 = max_clarification_rounds c"
    unfolding c3_def
    by (subst merge_only_facts, simp add: add_exchange_def counted_def)+
  have budget3: "analysis_calls (calls st3)
                   + nat (max_clarification_rounds c3 - clarification_round c3) \<le> N"
    using budget same by (simp add: st3_def)
  show ?thesis by (rule analyze_within_budget[OF ctx3 budget3 run3])
qed

lemma loop_within_budget:
  assumes "within_budget N r st" and "clarification_loop e lines (r, st) = (r', st')"
  shows "within_budget N r' st'"
  using assms
proof (induction lines arbitrary: r st)
  case Nil
  then show ?case by simp
next
  case (Cons line lines)
  show ?case
  proof (cases "is_question r")
    case False
    then have "clarification_loop e (line # lines) (r, st) = (r, st)"
      by (cases r) (auto split: reply.splits)
    with Cons.prems show ?thesis by simp
  next
    case True
    then obtain rd q a d where r: "r = Inr (NeedsClarification rd q a d)"
      by (cases r rule: is_question.cases) auto
    from Cons.prems(1) True obtain c where ctx: "conv_context st = Some c"
      and budget: "analysis_calls (calls st)
                   + nat (max_clarification_rounds c - clarification_round c) \<le> N"
      unfolding within_budget_def by auto
    show ?thesis
    proof (cases "py_lower (py_strip line) \<in> set [''proceed'', ''continue'', ''skip'']")
      case True
      let ?st1 = "st\<lparr>conv_context := Some (c\<lparr>clarification_round := max_clarification_rounds c\<rparr>)\<rparr>"
      have run: "analyze_and_clarify e ?st1 = (r', st')"
        using Cons.prems(2) True r ctx by (simp add: Let_def)
      have b: "analysis_calls (calls ?st1)
          + nat (max_clarification_rounds (c\<lparr>clarification_round := max_clarification_rounds c\<rparr>)
                 - clarification_round (c\<lparr>clarification_round := max_clarification_rounds c\<rparr>)) \<le> N"
        using budget by simp
      show ?thesis by (rule analyze_within_budget[OF _ b run]) simp
    next
      case False
      note not_proceed = False
      show ?thesis
      proof (cases "py_strip line = []")
        case True
        then have "clarification_loop e lines (r, st) = (r', st')"
          using Cons.prems(2) not_proceed r by (simp add: Let_def)
        from Cons.IH[OF Cons.prems(1) this] show ?thesis .
      next
        case False
        obtain r2 st2 where p: "process_user_response e st (py_strip line) = (r2, st2)"
          by (cases "process_user_response e st (py_strip line)")
        have "clarification_loop e lines (r2, st2) = (r', st')"
          using Cons.prems(2) not_proceed False r p by (simp add: Let_def)
        from Cons.IH[OF process_within_budget[OF ctx budget p] this] show ?thesis .
      qed
    qed
  qed
qed


subsection \<open>Every answer brings the hand-off closer\<close>

lemma proceed_outcome:
  assumes "proceed_effect e c st r st'"
  shows "is_raised r \<or> handed_off r st'"
proof -
  from assms obtain c' ext where
    a: "st' = st\<lparr>conv_context := Some c', calls := calls st @ ext\<rparr>"
    and g: "1 \<le> generation_calls ext"
    unfolding proceed_effect_def by blast
  from assms have h: "(case r of
             Inl ex \<Rightarrow> True
           | Inr (NeedsClarification rd q a d) \<Rightarrow> False
           | Inr (ErrorStatus m) \<Rightarrow> False
           | Inr (Generated g) \<Rightarrow> True)"
    unfolding proceed_effect_def by (auto split: sum.splits reply.splits)
  show ?thesis
  proof (cases r)
    case (Inl ex)
    then show ?thesis by simp
  next
    case (Inr b)
    with h a g show ?thesis by (cases b) simp_all
  qed
qed

lemma ask_outcome:
  assumes "ask_effect c st r st'"
  shows "is_question r \<or> is_raised r"
proof -
  from assms have h: "(case r of
             Inl ex \<Rightarrow> True
           | Inr (NeedsClarification rd q a d) \<Rightarrow> True
           | Inr other \<Rightarrow> False)"
    unfolding ask_effect_def by (auto split: sum.splits reply.splits)
  show ?thesis
  proof (cases r)
    case (Inl ex)
    then show ?thesis by simp
  next
    case (Inr b)
    with h show ?thesis by (cases b) simp_all
  qed
qed

lemma analyze_outcome:
  assumes ctx: "conv_context st = Some c" and run: "analyze_and_clarify e st = (r, st')"
  shows "is_question r \<or> is_raised r \<or> handed_off r st'"
proof -
  define c1 where "c1 = c\<lparr>confidence_score := calculate_confidence (Some c)\<rparr>"
  define st1 where "st1 = st\<lparr>calls := calls st @ [AnalyzeAndClarify], conv_context := Some c1\<rparr>"
  define proceeds where "proceeds \<longleftrightarrow>
      calculate_confidence (Some c) \<ge> 7 / 10
      \<or> clarification_round c \<ge> max_clarification_rounds c
      \<or> empty_response_count c \<ge> max_empty_responses c
      \<or> (clarification_round c \<ge> 2 \<and> (gathered_info c = [] \<or> length (gathered_info c) < 2))"
  have ctx1: "conv_context st1 = Some c1" by (simp add: st1_def)
  have unfold: "analyze_and_clarify e st =
      (if proceeds then proceed_with_generation e st1 else ask_intelligent_questions e st1)"
    using ctx unfolding proceeds_def st1_def c1_def
    by (auto simp add: analyze_and_clarify_def Let_def)
  show ?thesis
  proof (cases proceeds)
    case True
    then have "proceed_with_generation e st1 = (r, st')" using unfold run by simp
    from proceed_outcome[OF proceed_summary[OF ctx1 this]] show ?thesis by simp
  next
    case False
    then have "ask_intelligent_questions e st1 = (r, st')" using unfold run by simp
    from ask_outcome[OF ask_intelligent_effect[OF ctx1 this]] show ?thesis by blast
  qed
qed

lemma analyze_asking:
  assumes ctx: "conv_context st = Some c" and run: "analyze_and_clarify e st = (r, st')"
    and q: "is_question r" and nn: "0 \<le> empty_response_count c"
  shows "\<exists>c'. conv_context st' = Some c' \<and> asking c'
            \<and> patience c' = patience c - max_empty_responses c
            \<and> clarification_round c < max_clarification_rounds c"
proof -
  from analyze_and_clarify_effect[OF ctx run] q obtain c' ext where
    a: "st' = st\<lparr>conv_context := Some c', calls := calls st @ AnalyzeAndClarify # ext\<rparr>"
    and b: "same_answers c c'"
    and r: "clarification_round c < max_clarification_rounds c"
           "clarification_round c' = clarification_round c + 1"
           "empty_response_count c < max_empty_responses c"
    unfolding analyze_effect_def by auto
  note f = same_answers_fields[OF b]
  have "asking c'" using r nn f by (simp add: asking_def)
  moreover have "patience c' = patience c - max_empty_responses c"
    using r f by (simp add: patience_def algebra_simps)
  ultimately show ?thesis using a r(1) by simp
qed

lemma process_step:
  assumes ctx: "conv_context st = Some c" and ask: "asking c"
    and run: "process_user_response e st u = (r, st')"
  shows "(is_question r \<and> (\<exists>c'. conv_context st' = Some c' \<and> asking c' \<and> patience c' < patience c))
       \<or> (\<not> is_question r \<and> (is_raised r \<or> handed_off r st'))"
  using ctx
proof (cases rule: process_cases[where e = e and u = u])
  case reask
  then show ?thesis using run ask by (auto simp add: asking_def patience_def)
next
  case forced
  let ?st1 = "st\<lparr>conv_context := Some (c\<lparr>empty_response_count := empty_response_count c + 1\<rparr>)\<rparr>"
  have "proceed_with_generation e ?st1 = (r, st')" using forced(3) run by simp
  from proceed_summary[OF _ this] have pe:
    "proceed_effect e (c\<lparr>empty_response_count := empty_response_count c + 1\<rparr>) ?st1 r st'"
    by simp
  show ?thesis using proceed_not_question[OF pe] proceed_outcome[OF pe] by simp
next
  case (broken ex)
  then show ?thesis using run by auto
next
  case (analysed asked prompt info)
  define c3 where "c3 = merge_extracted
      (add_exchange (counted c u) (now_iso e (calls st)) ''System'' asked u) info u"
  define st3 where "st3 = st\<lparr>conv_context := Some c3,
      calls := calls st @ [ExecuteAsync (agent_name (analyst e)) prompt]\<rparr>"
  have p: "analyze_and_clarify e st3 = (r, st')"
    using analysed(5) run unfolding st3_def c3_def by simp
  have ctx3: "conv_context st3 = Some c3" by (simp add: st3_def)
  have fields: "clarification_round c3 = clarification_round c"
    "max_clarification_rounds c3 = max_clarification_rounds c"
    "max_empty_responses c3 = max_empty_responses c"
    "empty_response_count c3 = empty_response_count (counted c u)"
    unfolding c3_def
    by (subst merge_only_facts, simp add: add_exchange_def counted_def)+
  have cnt: "0 \<le> empty_response_count c3" "empty_response_count c3 \<le> empty_response_count c + 1"
    using ask unfolding fields by (simp_all add: counted_def asking_def)
  show ?thesis
  proof (cases "is_question r")
    case True
    from analyze_asking[OF ctx3 p True cnt(1)] obtain c' where
      c': "conv_context st' = Some c'" "asking c'"
        "patience c' = patience c3 - max_empty_responses c3" by blast
    have "patience c3 - max_empty_responses c3 < patience c"
      using cnt ask unfolding patience_def fields asking_def
      by (simp add: algebra_simps)
    with c' True show ?thesis by auto
  next
    case False
    with analyze_outcome[OF ctx3 p] show ?thesis by simp
  qed
qed

lemma loop_stops:
  assumes "\<not> is_question r"
  shows "clarification_loop e lines (r, st) = (r, st)"
proof (cases lines)
  case Nil
  then show ?thesis by simp
next
  case (Cons line rest)
  with assms show ?thesis by (cases r) (auto split: reply.splits)
qed

lemma loop_patience:
  assumes "conv_context st = Some c" and "asking c" and "is_question r"
    and "clarification_loop e lines (r, st) = (r', st')"
  shows "(is_question r' \<and> int (length (answers lines)) \<le> patience c)
       \<or> (\<not> is_question r' \<and> (is_raised r' \<or> handed_off r' st'))"
  using assms
proof (induction lines arbitrary: r st c)
  case Nil
  then show ?case by (simp add: answers_def asking_def patience_def)
next
  case (Cons line lines)
  from Cons.prems(3) obtain rd q a d where r: "r = Inr (NeedsClarification rd q a d)"
    by (cases r rule: is_question.cases) auto
  note ctx = Cons.prems(1)
  show ?case
  proof (cases "py_lower (py_strip line) \<in> set [''proceed'', ''continue'', ''skip'']")
    case True
    let ?c1 = "c\<lparr>clarification_round := max_clarification_rounds c\<rparr>"
    let ?st1 = "st\<lparr>conv_context := Some ?c1\<rparr>"
    have run: "analyze_and_clarify e ?st1 = (r', st')"
      using Cons.prems(4) True r ctx by (simp add: Let_def)
    have ctx1: "conv_context ?st1 = Some ?c1" by simp
    have nq: "\<not> is_question r'"
    proof
      assume "is_question r'"
      from analyze_asking[OF ctx1 run this] Cons.prems(2) show False
        by (simp add: asking_def)
    qed
    with analyze_outcome[OF ctx1 run] show ?thesis by simp
  next
    case False
    note not_proceed = False
    show ?thesis
    proof (cases "py_strip line = []")
      case True
      then have "clarification_loop e lines (r, st) = (r', st')"
        using Cons.prems(4) not_proceed r by (simp add: Let_def)
      from Cons.IH[OF ctx Cons.prems(2,3) this] True show ?thesis
        by (simp add: answers_def)
    next
      case False
      obtain r2 st2 where p: "process_user_response e st (py_strip line) = (r2, st2)"
        by (cases "process_user_response e st (py_strip line)")
      have rest: "clarification_loop e lines (r2, st2) = (r', st')"
        using Cons.prems(4) not_proceed False r p by (simp add: Let_def)
      from process_step[OF ctx Cons.prems(2) p] show ?thesis
      proof
        assume "is_question r2 \<and> (\<exists>c'. conv_context st2 = Some c' \<and> asking c' \<and> patience c' < patience c)"
        then obtain c' where q2: "is_question r2" and c': "conv_context st2 = Some c'" "asking c'"
          and less: "patience c' < patience c" by blast
        from Cons.IH[OF c' q2 rest] less False show ?thesis
          by (auto simp add: answers_def)
      next
        assume "\<not> is_question r2 \<and> (is_raised r2 \<or> handed_off r2 st2)"
        then show ?thesis using rest loop_stops[of r2 e lines st2] by auto
      qed
    qed
  qed
qed

lemma session_patience:
  assumes ctx: "conv_context st = Some c"
    and round: "0 \<le> clarification_round c" and count: "0 \<le> empty_response_count c"
    and enough: "max_clarification_rounds c * max_empty_responses c \<le> int (length (answers lines))"
  shows "is_raised (fst (clarification_loop e lines (analyze_and_clarify e st)))
       \<or> handed_off (fst (clarification_loop e lines (analyze_and_clarify e st)))
            (snd (clarification_loop e lines (analyze_and_clarify e st)))"
proof -
  obtain r0 st0 where first: "analyze_and_clarify e st = (r0, st0)"
    by (cases "analyze_and_clarify e st")
  obtain r' st' where run: "clarification_loop e lines (r0, st0) = (r', st')"
    by (cases "clarification_loop e lines (r0, st0)")
  show ?thesis
  proof (cases "is_question r0")
    case False
    with analyze_outcome[OF ctx first] loop_stops[OF False, of e lines st0]
    show ?thesis unfolding first by simp
  next
    case True
    from analyze_asking[OF ctx first True count] obtain c0 where
      c0: "conv_context st0 = Some c0" "asking c0"
        "patience c0 = patience c - max_empty_responses c"
        "clarification_round c < max_clarification_rounds c" by blast
    have me: "0 < max_empty_responses c"
      using analyze_and_clarify_effect[OF ctx first] True count
      unfolding analyze_effect_def by auto
    have "(max_clarification_rounds c - clarification_round c) * max_empty_responses c
            \<le> max_clarification_rounds c * max_empty_responses c"
      using round me by (intro mult_right_mono) simp_all
    then have "patience c0 < max_clarification_rounds c * max_empty_responses c"
      unfolding c0(3) using count by (simp add: patience_def)
    with loop_patience[OF c0(1,2) True run] enough show ?thesis
      unfolding first run by auto
  qed
qed

subsection \<open>C3: the number of calls to the analysis\<close>

text \<open>
  What the forced-proceed rules do guarantee. A session starts with a call to \<open>analyze_and_clarify\<close> and then feeds the lines the
  user types to the loop of the orchestrator. Whatever the lines, the replies of the
  agents and the results of the generation are, the log holds at most \<open>max_rounds\<close> calls
  to the analysis as long as no generation has been started, and at most
  \<open>max_rounds + 1\<close> in all: the call number \<open>max_rounds + 1\<close>, if the session gets that
  far, hands off to the generation. The session cannot go on asking either: every answer
  uses up a round or one of the empty responses the round allows, so once
  \<open>max_rounds * max_empty_responses\<close> lines that are not blank have been typed, the session
  has handed off to the generation, unless an exception has ended it before.
\<close>

theorem proceed_within_max_rounds_plus_one:
  assumes ctx: "conv_context st = Some c" and fresh: "calls st = []"
    and round: "0 \<le> clarification_round c" and count: "0 \<le> empty_response_count c"
  shows "analysis_calls (calls (snd (clarification_loop e lines (analyze_and_clarify e st))))
           \<le> nat (max_clarification_rounds c)
              + (if 1 \<le> generation_calls
                          (calls (snd (clarification_loop e lines (analyze_and_clarify e st))))
                 then 1 else 0)
     \<and> (max_clarification_rounds c * max_empty_responses c \<le> int (length (answers lines))
          \<longrightarrow> is_raised (fst (clarification_loop e lines (analyze_and_clarify e st)))
             \<or> handed_off (fst (clarification_loop e lines (analyze_and_clarify e st)))
                  (snd (clarification_loop e lines (analyze_and_clarify e st))))"
proof -
  obtain r1 st1 where first: "analyze_and_clarify e st = (r1, st1)"
    by (cases "analyze_and_clarify e st")
  obtain r' st' where final: "clarification_loop e lines (r1, st1) = (r', st')"
    by (cases "clarification_loop e lines (r1, st1)")
  have budget: "analysis_calls (calls st)
      + nat (max_clarification_rounds c - clarification_round c) \<le> nat (max_clarification_rounds c)"
    using fresh round by simp
  from loop_within_budget[OF analyze_within_budget[OF ctx budget first] final]
  obtain c' where "conv_context st' = Some c'"
    and b: "if is_question r'
            then analysis_calls (calls st')
                   + nat (max_clarification_rounds c' - clarification_round c')
                 \<le> nat (max_clarification_rounds c)
            else analysis_calls (calls st')
                   \<le> nat (max_clarification_rounds c)
                      + (if 1 \<le> generation_calls (calls st') then 1 else 0)"
    unfolding within_budget_def by blast
  then have "analysis_calls (calls st')
      \<le> nat (max_clarification_rounds c) + (if 1 \<le> generation_calls (calls st') then 1 else 0)"
    by (cases "is_question r'") auto
  then have bound: "analysis_calls (calls (snd (clarification_loop e lines (analyze_and_clarify e st))))
           \<le> nat (max_clarification_rounds c)
              + (if 1 \<le> generation_calls
                          (calls (snd (clarification_loop e lines (analyze_and_clarify e st))))
                 then 1 else 0)"
    using first final by simp
  show ?thesis
    using bound session_patience[OF ctx round count, of lines e] by blast
qed

text \<open>Scenario A of the specification: on a fresh context the user answers \<^verbatim>\<open>idk\<close> to
  every batch of questions; the second answer reaches the cap of empty responses, and
  the third call to the analysis hands off to the generation.\<close>

theorem proceed_after_unhelpful_answers:
  "analysis_calls (calls (snd (clarification_loop prose_env
          [''idk'', ''idk'', ''idk'', ''idk'', ''idk'', ''idk'']
          (analyze_and_clarify prose_env fresh_conversation)))) = 3
   \<and> handed_off
       (fst (clarification_loop prose_env [''idk'', ''idk'', ''idk'', ''idk'', ''idk'', ''idk'']
          (analyze_and_clarify prose_env fresh_conversation)))
       (snd (clarification_loop prose_env [''idk'', ''idk'', ''idk'', ''idk'', ''idk'', ''idk'']
          (analyze_and_clarify prose_env fresh_conversation)))"
proof -
  let ?c = "new_context ''Generate documentation'' None None"
  let ?S = "clarification_loop prose_env [''idk'', ''idk'', ''idk'', ''idk'', ''idk'', ''idk'']
          (analyze_and_clarify prose_env fresh_conversation)"
  have h1: "conv_context fresh_conversation = Some ?c"
    by (simp add: fresh_conversation_def)
  have h2: "calls fresh_conversation = []" by (simp add: fresh_conversation_def)
  have h3: "0 \<le> clarification_round ?c" "0 \<le> empty_response_count ?c"
    by (simp_all add: new_context_def post_init_def)
  have m: "max_clarification_rounds ?c = 3" "max_empty_responses ?c = 2"
    by (simp_all add: new_context_def post_init_def)
  have six: "length (answers [''idk'', ''idk'', ''idk'', ''idk'', ''idk'', ''idk'']) = 6"
    by code_simp
  have run: "analysis_calls (calls (snd ?S)) = 3 \<and> \<not> is_raised (fst ?S)"
    by code_simp
  show ?thesis
    using proceed_within_max_rounds_plus_one[OF h1 h2 h3, where e = prose_env
        and lines = "[''idk'', ''idk'', ''idk'', ''idk'', ''idk'', ''idk'']"] run
    unfolding m six by simp
qed

text \<open>
  C3 describes what the forced-proceed rules are meant to guarantee; the code misses one
  case: \<^verbatim>\<open>process_user_response\<close> joins the stored questions outside any \<^verbatim>\<open>try\<close> block.
  When the dispatcher's analysis lists a question as an object, the batch is stored as
  it is, the first answer raises \<^verbatim>\<open>TypeError\<close>, and the session ends after one call to
  the analysis without a hand-off to the generation, however many answers follow.
\<close>

theorem unjoinable_questions_end_session:
  "int (length (answers six_answers))
     = max_clarification_rounds (new_context ''Generate documentation'' None None)
       * max_empty_responses (new_context ''Generate documentation'' None None)
   \<and> fst (clarification_loop object_question_env six_answers
            (analyze_and_clarify object_question_env fresh_conversation)) = Inl TypeError
   \<and> analysis_calls (calls (snd (clarification_loop object_question_env six_answers
            (analyze_and_clarify object_question_env fresh_conversation)))) = 1
   \<and> generation_calls (calls (snd (clarification_loop object_question_env six_answers
            (analyze_and_clarify object_question_env fresh_conversation)))) = 0"
  by code_simp

subsection \<open>C2: the self-critique loop\<close>

text \<open>
  C2, as stated, fails: with the default cap of two critique rounds and a document that
  stays low, the generation is called four times: each round calls it once with the
  critique appended, and each recursive retry calls it once more at its start. That is
  three regenerations after the first generation.
\<close>

theorem four_generations_for_two_rounds:
  "max_critique_iterations (new_context ''Generate documentation'' None None) = 2
   \<and> generation_calls (calls (snd (proceed_with_generation always_low_env fresh_conversation))) = 4
   \<and> \<not> generation_calls (calls (snd (proceed_with_generation always_low_env fresh_conversation))) - 1
         \<le> nat (max_critique_iterations (new_context ''Generate documentation'' None None))"
proof -
  have m: "max_critique_iterations (new_context ''Generate documentation'' None None) = 2"
    by (simp add: new_context_def post_init_def)
  have g: "generation_calls (calls (snd (proceed_with_generation always_low_env fresh_conversation))) = 4"
    by code_simp
  show ?thesis by (simp add: m g)
qed

text \<open>
  C2, amended: \<open>proceed_with_generation\<close> always returns. It runs at most
  \<open>max_critique_iterations - critique_iterations\<close> critique rounds, each with one call to
  the editor and one generation with the critique appended; with the generation at the
  start of every retry, the generation is called at most twice that number of times
  (once when no round can run). When it returns a generation, that is the result of the
  last generation call, as returned.
\<close>

theorem self_critique_bounded:
  assumes "conv_context st = Some c"
  shows "take (length (calls st)) (calls (snd (proceed_with_generation e st))) = calls st
     \<and> generation_calls (drop (length (calls st)) (calls (snd (proceed_with_generation e st))))
         \<le> (if enable_self_critique c
             then max 1 (2 * nat (max_critique_iterations c - critique_iterations c)) else 1)
     \<and> agent_calls (drop (length (calls st)) (calls (snd (proceed_with_generation e st))))
         \<le> nat (max_critique_iterations c - critique_iterations c)
     \<and> (case fst (proceed_with_generation e st) of
           Inr (Generated g) \<Rightarrow>
             (\<exists>req. last (calls (snd (proceed_with_generation e st))) = GenerateDocumentation req
                \<and> g = generate_documentation_async e (calls (snd (proceed_with_generation e st))) req
                        (code_directory c) (input_files c))
         | _ \<Rightarrow> True)"
proof -
  obtain r st' where run: "proceed_with_generation e st = (r, st')"
    by (cases "proceed_with_generation e st")
  from proceed_summary[OF assms run] obtain c' ext where
    a: "st' = st\<lparr>conv_context := Some c', calls := calls st @ ext\<rparr>"
    and g: "generation_calls ext \<le>
            (if enable_self_critique c
             then max 1 (2 * nat (max_critique_iterations c - critique_iterations c)) else 1)"
    and ag: "agent_calls ext \<le> nat (max_critique_iterations c - critique_iterations c)"
    and l: "(case r of
             Inl ex \<Rightarrow> True
           | Inr (NeedsClarification rd q a d) \<Rightarrow> False
           | Inr (ErrorStatus m) \<Rightarrow> False
           | Inr (Generated g) \<Rightarrow>
               (\<exists>pre req. ext = pre @ [GenerateDocumentation req]
                  \<and> g = generate_documentation_async e (calls st') req (code_directory c) (input_files c)))"
    unfolding proceed_effect_def by blast
  have last: "(case r of
           Inr (Generated g) \<Rightarrow>
             (\<exists>req. last (calls st') = GenerateDocumentation req
                \<and> g = generate_documentation_async e (calls st') req (code_directory c) (input_files c))
         | _ \<Rightarrow> True)"
  proof (cases r)
    case (Inr rep)
    show ?thesis
    proof (cases rep)
      case (Generated g)
      with l Inr obtain pre req where "ext = pre @ [GenerateDocumentation req]"
        "g = generate_documentation_async e (calls st') req (code_directory c) (input_files c)"
        by auto
      then show ?thesis using Inr Generated a by auto
    qed (simp_all add: Inr)
  qed simp
  show ?thesis unfolding run fst_conv snd_conv using a g ag last by simp
qed

theorem self_critique_bounded_always_low:
  "generation_calls (calls (snd (proceed_with_generation always_low_env fresh_conversation))) \<le> 4
   \<and> agent_calls (calls (snd (proceed_with_generation always_low_env fresh_conversation))) \<le> 2"
proof -
  have h: "conv_context fresh_conversation = Some (new_context ''Generate documentation'' None None)"
    by (simp add: fresh_conversation_def)
  have e: "calls fresh_conversation = []" by (simp add: fresh_conversation_def)
  have v: "enable_self_critique (new_context ''Generate documentation'' None None)"
    "max_critique_iterations (new_context ''Generate documentation'' None None) = 2"
    "critique_iterations (new_context ''Generate documentation'' None None) = 0"
    by (simp_all add: new_context_def post_init_def)
  show ?thesis
    using self_critique_bounded[OF h, of always_low_env] by (simp add: e v)
qed

subsection \<open>C8: what is written into the gathered facts\<close>

lemma dict_set_entries: "set (dict_set kvs k v) \<subseteq> insert (k, v) (set kvs)"
  by (induction kvs) (auto split: if_splits)

lemma merge_fold_truthy:
  "(key, val) \<in> set (gathered_info
       (foldl (\<lambda>c (key, val). if truthy val then update_info c key val else c) c items))
   \<Longrightarrow> (key, val) \<in> set (gathered_info c) \<or> truthy val"
proof (induction items arbitrary: c)
  case Nil
  then show ?case by simp
next
  case (Cons kv items)
  obtain k v where kv: "kv = (k, v)" by (cases kv)
  show ?case
  proof (cases "truthy v")
    case True
    from Cons.prems kv True have
      "(key, val) \<in> set (gathered_info (foldl (\<lambda>c (key, val). if truthy val then update_info c key val else c)
          (update_info c k v) items))" by simp
    from Cons.IH[OF this] have "(key, val) \<in> set (gathered_info (update_info c k v)) \<or> truthy val" .
    then show ?thesis
      using dict_set_entries[of "gathered_info c" k v] True by (auto simp: update_info_def)
  next
    case False
    with Cons.prems kv have
      "(key, val) \<in> set (gathered_info (foldl (\<lambda>c (key, val). if truthy val then update_info c key val else c)
          c items))" by simp
    from Cons.IH[OF this] show ?thesis .
  qed
qed

text \<open>A value that strips to nothing does not enter the fact score.\<close>

lemma blank_fact_not_scored:
  "py_strip (py_str val) = [] \<Longrightarrow> score_fact acc (key, val) = acc"
  by (cases acc) (simp add: score_fact_def)

text \<open>
  C8, as stated, fails: the merge of \<open>process_user_response\<close> tests \<^verbatim>\<open>if value\<close>, and a
  string of three blanks is truthy. When the analyst extracts such a value, it is stored.
  (\<open>update_info\<close> itself checks nothing.)
\<close>

theorem blank_fact_is_stored:
  "map_option gathered_info
      (conv_context (snd (process_user_response blank_env asked_once ''a web shop'')))
     = Some [(''application_type'', PyStr ''   '')]
   \<and> py_strip ''   '' = []"
  by code_simp

text \<open>
  C8, amended: when \<open>process_user_response\<close> merges the extracted facts (the response
  has at least three characters after stripping), every entry of the gathered facts
  that was not there before has a truthy value: no empty string, empty list, null, zero
  or false is written. Whitespace-only strings are truthy and are written; the scorer
  leaves them out of the score instead.
\<close>

theorem merged_facts_are_truthy:
  assumes "3 \<le> length (py_strip user_response)"
    and "(key, val) \<in> set (gathered_info (merge_extracted c info user_response))"
  shows "(key, val) \<in> set (gathered_info c) \<or> truthy val"
proof (cases info)
  case (PyDict items)
  with assms(2) show ?thesis
    using merge_fold_truthy[of key val c items] by (simp add: merge_extracted_def)
next
  case PyNone
  have "user_response \<noteq> []" using assms(1) by auto
  with assms(2) PyNone show ?thesis
    using dict_set_entries[of "gathered_info c" "''latest_response''" "PyStr user_response"]
    by (auto simp: merge_extracted_def update_info_def)
next
  case (PyBool b)
  have "user_response \<noteq> []" using assms(1) by auto
  with assms(2) PyBool show ?thesis
    using dict_set_entries[of "gathered_info c" "''latest_response''" "PyStr user_response"]
    by (auto simp: merge_extracted_def update_info_def)
next
  case (PyInt i)
  have "user_response \<noteq> []" using assms(1) by auto
  with assms(2) PyInt show ?thesis
    using dict_set_entries[of "gathered_info c" "''latest_response''" "PyStr user_response"]
    by (auto simp: merge_extracted_def update_info_def)
next
  case (PyFloat f)
  have "user_response \<noteq> []" using assms(1) by auto
  with assms(2) PyFloat show ?thesis
    using dict_set_entries[of "gathered_info c" "''latest_response''" "PyStr user_response"]
    by (auto simp: merge_extracted_def update_info_def)
next
  case (PyStr s)
  have "user_response \<noteq> []" using assms(1) by auto
  with assms(2) PyStr show ?thesis
    using dict_set_entries[of "gathered_info c" "''latest_response''" "PyStr user_response"]
    by (auto simp: merge_extracted_def update_info_def)
next
  case (PyList xs)
  have "user_response \<noteq> []" using assms(1) by auto
  with assms(2) PyList show ?thesis
    using dict_set_entries[of "gathered_info c" "''latest_response''" "PyStr user_response"]
    by (auto simp: merge_extracted_def update_info_def)
qed

theorem merged_facts_are_truthy_example:
  "3 \<le> length (py_strip ''a web shop'')
   \<and> (''key_features'', PyStr ''checkout'')
        \<in> set (gathered_info (merge_extracted plain_context
             (PyDict [(''key_features'', PyStr ''checkout''), (''timeline'', PyStr [])]) ''a web shop''))
   \<and> truthy (PyStr ''checkout'')"
proof -
  have h1: "3 \<le> length (py_strip ''a web shop'')" by code_simp
  have h2: "(''key_features'', PyStr ''checkout'')
        \<in> set (gathered_info (merge_extracted plain_context
             (PyDict [(''key_features'', PyStr ''checkout''), (''timeline'', PyStr [])]) ''a web shop''))"
    by (simp add: merge_extracted_def update_info_def plain_context_def)
  have old: "(''key_features'', PyStr ''checkout'') \<notin> set (gathered_info plain_context)"
    by (simp add: plain_context_def)
  show ?thesis
    using merged_facts_are_truthy[OF h1 h2] h1 h2 old by simp
qed

subsection \<open>C10: the engagement counter after an answer\<close>

lemma answer_effect:
  assumes ctx: "conv_context st = Some c"
    and len: "3 \<le> length (py_strip u)"
    and joined: "py_join ''; '' (get_last_questions (Some c)) = Inr asked"
  shows "map_option empty_response_count (conv_context (snd (process_user_response e st u)))
           = Some (empty_response_count (counted c u))
     \<and> map_option conversation_history (conv_context (snd (process_user_response e st u)))
           = Some (conversation_history c @
               [\<lparr>timestamp = now_iso e (calls st), agent = ''System'', question = asked, answer = u\<rparr>])
     \<and> take (Suc (length (calls st))) (calls (snd (process_user_response e st u)))
           = calls st @ [ExecuteAsync (agent_name (analyst e))
               (extraction_prompt u (get_context_summary
                  (add_exchange (counted c u) (now_iso e (calls st)) ''System'' asked u)))]"
  using ctx
proof (cases rule: process_cases[where e = e and u = u])
  case (analysed asked' prompt info)
  have asked: "asked' = asked" using analysed(2) joined by simp
  define c3 where "c3 = merge_extracted
      (add_exchange (counted c u) (now_iso e (calls st)) ''System'' asked u) info u"
  define st3 where "st3 = st\<lparr>conv_context := Some c3,
      calls := calls st @ [ExecuteAsync (agent_name (analyst e)) prompt]\<rparr>"
  obtain r st' where run: "analyze_and_clarify e st3 = (r, st')"
    by (cases "analyze_and_clarify e st3")
  have p: "process_user_response e st u = (r, st')"
    using analysed(5) run unfolding st3_def c3_def asked by simp
  have ctx3: "conv_context st3 = Some c3" by (simp add: st3_def)
  from analyze_and_clarify_effect[OF ctx3 run] obtain c' ext where
    a: "st' = st3\<lparr>conv_context := Some c', calls := calls st3 @ AnalyzeAndClarify # ext\<rparr>"
    and b: "same_answers c3 c'"
    unfolding analyze_effect_def by blast
  note f = same_answers_fields[OF b]
  have c3_fields: "empty_response_count c3 = empty_response_count (counted c u)"
    "conversation_history c3 = conversation_history c @
               [\<lparr>timestamp = now_iso e (calls st), agent = ''System'', question = asked, answer = u\<rparr>]"
    unfolding c3_def
    by (subst merge_only_facts, simp add: add_exchange_def counted_def)+
  show ?thesis
    unfolding p snd_conv using a f(2,6) c3_fields analysed(3)
    by (simp add: st3_def asked)
qed (use len joined in simp_all)

text \<open>
  C10, as stated, fails on one of its own examples: \<^verbatim>\<open>nonstop\<close> holds none of the
  phrases (\<^verbatim>\<open>none\<close> is not a substring of it), so the counter is reset to 0, not
  incremented.
\<close>

theorem nonstop_resets_counter:
  "\<not> any_in unhelpful_patterns (py_lower (py_strip ''nonstop''))
   \<and> map_option empty_response_count (conv_context asked_once_unhelpful) = Some 1
   \<and> map_option empty_response_count
        (conv_context (snd (process_user_response prose_env asked_once_unhelpful ''nonstop''))) = Some 0"
proof -
  let ?c = "plain_context\<lparr>clarification_round := 1,
          last_questions := PyList [PyStr ''Who are the primary users or stakeholders?''],
          empty_response_count := 1\<rparr>"
  have h1: "conv_context asked_once_unhelpful = Some ?c" by (simp add: asked_once_unhelpful_def)
  have h2: "3 \<le> length (py_strip ''nonstop'')" by code_simp
  have h3: "py_join ''; '' (get_last_questions (Some ?c)) = Inr ''Who are the primary users or stakeholders?''"
    by (simp add: get_last_questions_def)
  have n: "\<not> any_in unhelpful_patterns (py_lower (py_strip ''nonstop''))" by code_simp
  have "map_option empty_response_count
        (conv_context (snd (process_user_response prose_env asked_once_unhelpful ''nonstop'')))
      = Some (empty_response_count (counted ?c ''nonstop''))"
    using answer_effect[OF h1 h2 h3, of prose_env] by simp
  then show ?thesis using n h1 by (simp add: counted_def)
qed

text \<open>
  C10, amended: for a response whose stripped length is at least 3 and less than 20, and
  provided the stored questions can be joined (a list of strings, or a string; any other
  value raises \<^verbatim>\<open>TypeError\<close> before the history is touched),
  \<open>process_user_response\<close> leaves the counter incremented by one when the lower-cased,
  stripped response contains one of the eight phrases as a substring (also inside a
  longer word, as \<^verbatim>\<open>pass\<close> in \<^verbatim>\<open>compass\<close>) and reset to 0 otherwise; in both cases
  the exchange is appended to the history and the analyst is called with the extraction
  prompt next.
\<close>

theorem engagement_counter_after_answer:
  assumes "conv_context st = Some c"
    and "3 \<le> length (py_strip u)" and "length (py_strip u) < 20"
    and "py_join ''; '' (get_last_questions (Some c)) = Inr asked"
  shows "map_option empty_response_count (conv_context (snd (process_user_response e st u)))
           = Some (if any_in unhelpful_patterns (py_lower (py_strip u))
                   then empty_response_count c + 1 else 0)
     \<and> map_option conversation_history (conv_context (snd (process_user_response e st u)))
           = Some (conversation_history c @
               [\<lparr>timestamp = now_iso e (calls st), agent = ''System'', question = asked, answer = u\<rparr>])
     \<and> (\<exists>prompt. take (Suc (length (calls st))) (calls (snd (process_user_response e st u)))
           = calls st @ [ExecuteAsync (agent_name (analyst e)) prompt])"
  using answer_effect[OF assms(1,2,4), of e] assms(3)
  by (cases "any_in unhelpful_patterns (py_lower (py_strip u))") (auto simp add: counted_def)

theorem engagement_counter_after_compass:
  "any_in unhelpful_patterns (py_lower (py_strip ''compass''))
   \<and> map_option empty_response_count (conv_context asked_once_unhelpful) = Some 1
   \<and> map_option empty_response_count
        (conv_context (snd (process_user_response prose_env asked_once_unhelpful ''compass''))) = Some 2"
proof -
  let ?c = "plain_context\<lparr>clarification_round := 1,
          last_questions := PyList [PyStr ''Who are the primary users or stakeholders?''],
          empty_response_count := 1\<rparr>"
  have h1: "conv_context asked_once_unhelpful = Some ?c" by (simp add: asked_once_unhelpful_def)
  have h2: "3 \<le> length (py_strip ''compass'')" by code_simp
  have h3: "length (py_strip ''compass'') < 20" by code_simp
  have h4: "py_join ''; '' (get_last_questions (Some ?c)) = Inr ''Who are the primary users or stakeholders?''"
    by (simp add: get_last_questions_def)
  have y: "any_in unhelpful_patterns (py_lower (py_strip ''compass''))" by code_simp
  show ?thesis
    using engagement_counter_after_answer[OF h1 h2 h3 h4, of prose_env] y h1 by simp
qed

end
